theory Spec2Isabelle
  imports Main
begin

section \<open>Strings, numbers and regular expressions of the scheduler\<close>

text \<open>
  The scheduler service (\<^verbatim>\<open>scheduler.service.ts\<close>) works on JavaScript strings, numbers
  and \<^verbatim>\<open>Date\<close> values. A schedule string is a \<^typ>\<open>string\<close>, each \<^typ>\<open>char\<close> of which
  is a UTF-16 code unit below 256; the values that \<^verbatim>\<open>parseInt\<close> returns are integers
  (\<^verbatim>\<open>NaN\<close> is \<open>None\<close>). Of the white space of JavaScript, the code units below 256 are
  the space, the tab, the line feed, the vertical tab, the form feed, the carriage return
  and the no-break space \<^verbatim>\<open>U+00A0\<close>; a digit of \<^verbatim>\<open>\d\<close> is one of the ten ASCII digits.
\<close>

definition is_digit :: "char \<Rightarrow> bool" where
  "is_digit c = (c \<in> set ''0123456789'')"

definition is_space :: "char \<Rightarrow> bool" where
  \<comment> \<open>the white space of \<^verbatim>\<open>\s\<close>, of \<^verbatim>\<open>trim()\<close> and of \<^verbatim>\<open>parseInt\<close>\<close>
  "is_space c =
     (c \<in> set [CHR '' '', CHR 0x09, CHR 0x0A, CHR 0x0B, CHR 0x0C, CHR 0x0D, CHR 0xA0])"

definition digit_val :: "char \<Rightarrow> nat" where
  "digit_val c = of_char c - 48"

definition digits_val :: "string \<Rightarrow> nat" where
  \<comment> \<open>the value of a string of decimal digits\<close>
  "digits_val ds = foldl (\<lambda>a c. 10 * a + digit_val c) 0 ds"

definition all_digits :: "string \<Rightarrow> bool" where
  \<comment> \<open>\<^verbatim>\<open>/^\d+$/\<close>\<close>
  "all_digits s = (s \<noteq> [] \<and> list_all is_digit s)"

definition trim :: "string \<Rightarrow> string" where
  "trim s = rev (dropWhile is_space (rev (dropWhile is_space s)))"

definition parseInt :: "string \<Rightarrow> int option" where
  \<comment> \<open>\<^verbatim>\<open>parseInt(s, 10)\<close>: leading white space, an optional sign, the longest run of
      digits; \<^verbatim>\<open>NaN\<close> when there is no digit\<close>
  "parseInt s =
     (let t = dropWhile is_space s;
          neg = (t \<noteq> [] \<and> hd t = CHR ''-'');
          u = (if t \<noteq> [] \<and> (hd t = CHR ''-'' \<or> hd t = CHR ''+'') then tl t else t);
          ds = takeWhile is_digit u
      in if ds = [] then None
         else Some (if neg then - int (digits_val ds) else int (digits_val ds)))"

fun split_on :: "char \<Rightarrow> string \<Rightarrow> string list" where
  \<comment> \<open>\<^verbatim>\<open>s.split(c)\<close> for a one-character separator: empty pieces are kept\<close>
  "split_on sep [] = [[]]"
| "split_on sep (c # cs) =
     (if c = sep then [] # split_on sep cs
      else (case split_on sep cs of [] \<Rightarrow> [[c]] | p # ps \<Rightarrow> (c # p) # ps))"

function split_ws :: "string \<Rightarrow> string list" where
  \<comment> \<open>\<^verbatim>\<open>s.split(/\s+/)\<close>: the pieces between the maximal runs of white space\<close>
  "split_ws [] = [[]]"
| "split_ws (c # cs) =
     (if is_space c then [] # split_ws (dropWhile is_space cs)
      else (case split_ws cs of [] \<Rightarrow> [[c]] | p # ps \<Rightarrow> (c # p) # ps))"
  by pat_completeness auto
termination
  by (relation "measure length") (auto simp: less_Suc_eq_le length_dropWhile_le)

definition startsWith :: "string \<Rightarrow> string \<Rightarrow> bool" where
  "startsWith s p = (take (length p) s = p)"

section \<open>The cron field matcher\<close>

definition stepMatch :: "string \<Rightarrow> string option" where
  \<comment> \<open>\<^verbatim>\<open>field.match(/^\*\/(\d+)$/)\<close>: the captured digits\<close>
  "stepMatch field =
     (if startsWith field ''*/'' \<and> all_digits (drop 2 field) then Some (drop 2 field) else None)"

definition rangeMatch :: "string \<Rightarrow> (string \<times> string) option" where
  \<comment> \<open>\<^verbatim>\<open>field.match(/^(\d+)-(\d+)$/)\<close>: the two captured digit strings\<close>
  "rangeMatch field =
     (let a = takeWhile is_digit field; r = dropWhile is_digit field
      in if a \<noteq> [] \<and> r \<noteq> [] \<and> hd r = CHR ''-'' \<and> all_digits (tl r) then Some (a, tl r)
         else None)"

definition matchesCronField :: "string \<Rightarrow> nat \<Rightarrow> bool" where
  "matchesCronField field v =
     (if field = ''*'' then True
      else (case stepMatch field of
        Some ds \<Rightarrow> (let step = digits_val ds in step \<noteq> 0 \<and> v mod step = 0)
      | None \<Rightarrow>
          (if all_digits field then digits_val field = v
           else (case rangeMatch field of
             Some (a, b) \<Rightarrow> digits_val a \<le> v \<and> v \<le> digits_val b
           | None \<Rightarrow>
               (if CHR '','' \<in> set field
                then Some (int v) \<in> set (map (\<lambda>t. parseInt (trim t)) (split_on CHR '','' field))
                else False)))))"

section \<open>Dates\<close>

text \<open>
  A \<^verbatim>\<open>Date\<close> holds a time value: a whole number of milliseconds since the epoch, of at
  most \<open>8.64 * 10 ^ 15\<close> in absolute value, or \<^verbatim>\<open>NaN\<close>, and then the date is an Invalid
  Date. \<^verbatim>\<open>new Date(v)\<close> of a number outside the range is an Invalid Date; nothing is
  thrown. JavaScript numbers are doubles: every integer up to \<open>2 ^ 53\<close> is exact, and a sum of
  non-negative numbers that exceeds \<open>2 ^ 53\<close>, exact or rounded, exceeds the range of
  \<^verbatim>\<open>Date\<close>, so that the integers of the model give the dates of the code.

  The clock of the service shows the present, some time after the epoch and far from the
  end of the range. A date that is made from a reading of the clock alone is therefore
  valid, and is written \<open>Time t\<close> at once: the reading itself, the candidates of the cron
  search, which lie at most 10081 calendar minutes after it, and the due time of the
  backoff, at most one hour after it. The calculator never receives another reference time
  than a reading of the clock. Only the interval calculator adds a duration that the
  schedule string chooses, and its \<^verbatim>\<open>new Date(...)\<close> is \<open>mkDate\<close>.
\<close>

datatype Date = Time int | InvalidDate

definition maxTime :: int where
  "maxTime = 8640000000000000"

definition mkDate :: "int \<Rightarrow> Date" where
  \<comment> \<open>\<^verbatim>\<open>new Date(v)\<close> for a number \<open>v\<close>\<close>
  "mkDate v = (if - maxTime \<le> v \<and> v \<le> maxTime then Time v else InvalidDate)"

section \<open>Calendar fields of a Date\<close>

text \<open>
  The calendar getters and setters of \<^verbatim>\<open>Date\<close> work in the time zone of the process. A
  zone is given by its two offsets of ECMAScript, in milliseconds: \<open>tza_utc z t\<close> is the
  offset in force at the instant \<open>t\<close> (\<^verbatim>\<open>LocalTZA(t, true)\<close>), and \<open>tza_local z t\<close> is the
  offset by which the local time \<open>t\<close> is read (\<^verbatim>\<open>LocalTZA(t, false)\<close>), which for a local
  time that a change of the clocks repeats or skips is the offset before the change. A
  getter reads the fields of \<^verbatim>\<open>LocalTime(t)\<close>; a setter changes fields of \<^verbatim>\<open>LocalTime(t)\<close>
  and stores \<^verbatim>\<open>UTC\<close> of the result.
\<close>

record zone =
  tza_utc :: "int \<Rightarrow> int"
  tza_local :: "int \<Rightarrow> int"

definition LocalTime :: "zone \<Rightarrow> int \<Rightarrow> int" where
  "LocalTime z t = t + tza_utc z t"

definition UTC :: "zone \<Rightarrow> int \<Rightarrow> int" where
  "UTC z t = t - tza_local z t"

definition getMinutes :: "zone \<Rightarrow> int \<Rightarrow> nat" where
  "getMinutes z t = nat ((LocalTime z t div 60000) mod 60)"

definition getHours :: "zone \<Rightarrow> int \<Rightarrow> nat" where
  "getHours z t = nat ((LocalTime z t div 3600000) mod 24)"

definition getDay :: "zone \<Rightarrow> int \<Rightarrow> nat" where
  \<comment> \<open>0 is Sunday; the first of January 1970 was a Thursday\<close>
  "getDay z t = nat ((LocalTime z t div 86400000 + 4) mod 7)"

definition civil :: "int \<Rightarrow> int \<times> nat \<times> nat" where
  \<comment> \<open>year, month (1 to 12) and day of the month of a day number counted from the epoch,
      in the proleptic Gregorian calendar\<close>
  "civil days =
     (let z = days + 719468;
          era = z div 146097;
          doe = z mod 146097;
          yoe = (doe - doe div 1460 + doe div 36524 - doe div 146096) div 365;
          doy = doe - (365 * yoe + yoe div 4 - yoe div 100);
          mp = (5 * doy + 2) div 153;
          d = doy - (153 * mp + 2) div 5 + 1;
          m = (if mp < 10 then mp + 3 else mp - 9);
          y = yoe + era * 400 + (if m \<le> 2 then 1 else 0)
      in (y, nat m, nat d))"

definition getDate :: "zone \<Rightarrow> int \<Rightarrow> nat" where
  "getDate z t = snd (snd (civil (LocalTime z t div 86400000)))"

definition getMonth :: "zone \<Rightarrow> int \<Rightarrow> nat" where
  \<comment> \<open>0 is January\<close>
  "getMonth z t = fst (snd (civil (LocalTime z t div 86400000))) - 1"

definition setSeconds00 :: "zone \<Rightarrow> int \<Rightarrow> int" where
  \<comment> \<open>\<^verbatim>\<open>d.setSeconds(0, 0)\<close>: the local time with seconds and milliseconds cleared\<close>
  "setSeconds00 z t = UTC z (LocalTime z t - LocalTime z t mod 60000)"

definition addMinute :: "zone \<Rightarrow> int \<Rightarrow> int" where
  \<comment> \<open>\<^verbatim>\<open>d.setMinutes(d.getMinutes() + 1)\<close>: the local time one minute on\<close>
  "addMinute z t = UTC z (LocalTime z t + 60000)"

definition fixed_zone :: "int \<Rightarrow> zone" where
  \<comment> \<open>a zone that keeps one offset, such as UTC (offset 0)\<close>
  "fixed_zone c = \<lparr>tza_utc = (\<lambda>t. c), tza_local = (\<lambda>t. c)\<rparr>"


section \<open>The next-run calculator\<close>

datatype error =
    InvalidSchedule string
  | NoFeasibleRun string
  | RangeError string
  | External string

text \<open>
  Every failure of the code is a thrown error with a message. The three errors of the
  calculator about the form of the schedule are \<open>InvalidSchedule\<close>, the error of the
  exhausted cron search is \<open>NoFeasibleRun\<close>, the error that \<^verbatim>\<open>toISOString()\<close> throws for an
  Invalid Date is \<open>RangeError\<close>, and an error thrown by the repository or by the job
  executor is \<open>External\<close>.
\<close>

fun message :: "error \<Rightarrow> string" where
  "message (InvalidSchedule m) = m"
| "message (NoFeasibleRun m) = m"
| "message (RangeError m) = m"
| "message (External m) = m"

fun find_PT :: "string \<Rightarrow> string option" where
  \<comment> \<open>the text after the leftmost \<^verbatim>\<open>PT\<close>, where the unanchored pattern starts to match\<close>
  "find_PT (c # d # cs) = (if c = CHR ''P'' \<and> d = CHR ''T'' then Some cs else find_PT (d # cs))"
| "find_PT _ = None"

definition opt_group :: "char \<Rightarrow> string \<Rightarrow> string option \<times> string" where
  \<comment> \<open>\<^verbatim>\<open>(?:(\d+)U)?\<close> at the head of a text: the captured digits, and the text that follows\<close>
  "opt_group u s =
     (let ds = takeWhile is_digit s; r = dropWhile is_digit s
      in if ds \<noteq> [] \<and> r \<noteq> [] \<and> hd r = u then (Some ds, tl r) else (None, s))"

definition interval_match :: "string \<Rightarrow> (string option \<times> string option \<times> string option) option" where
  \<comment> \<open>\<^verbatim>\<open>interval.match(/PT(?:(\d+)H)?(?:(\d+)M)?(?:(\d+)S)?/)\<close>: the three groups\<close>
  "interval_match interval =
     (case find_PT interval of
        None \<Rightarrow> None
      | Some r0 \<Rightarrow>
          (let (h, r1) = opt_group CHR ''H'' r0;
               (m, r2) = opt_group CHR ''M'' r1;
               (s, r3) = opt_group CHR ''S'' r2
           in Some (h, m, s)))"

definition group_val :: "string option \<Rightarrow> nat" where
  \<comment> \<open>\<^verbatim>\<open>parseInt(match[i] || '0', 10)\<close>\<close>
  "group_val g = (case g of None \<Rightarrow> 0 | Some ds \<Rightarrow> digits_val ds)"

definition calculateNextRunFromInterval :: "string \<Rightarrow> int \<Rightarrow> error + Date" where
  "calculateNextRunFromInterval interval from =
     (case interval_match interval of
        None \<Rightarrow> Inl (InvalidSchedule (''Invalid interval format: '' @ interval))
      | Some (h, m, s) \<Rightarrow>
          (let totalMs = group_val h * 3600000 + group_val m * 60000 + group_val s * 1000
           in if totalMs = 0 then Inl (InvalidSchedule ''Interval must be greater than 0'')
              else Inr (mkDate (from + int totalMs))))"

definition maxAttempts :: nat where
  "maxAttempts = 10080"

definition cron_matches :: "zone \<Rightarrow> string list \<Rightarrow> int \<Rightarrow> bool" where
  \<comment> \<open>the five tests of the loop body, on the parts \<^verbatim>\<open>[minute, hour, day, month, weekday]\<close>\<close>
  "cron_matches z parts t =
     (matchesCronField (parts ! 0) (getMinutes z t) \<and>
      matchesCronField (parts ! 1) (getHours z t) \<and>
      matchesCronField (parts ! 2) (getDate z t) \<and>
      matchesCronField (parts ! 3) (getMonth z t + 1) \<and>
      matchesCronField (parts ! 4) (getDay z t))"

function cron_loop :: "zone \<Rightarrow> string \<Rightarrow> string list \<Rightarrow> int \<Rightarrow> nat \<Rightarrow> error + Date" where
  \<comment> \<open>\<^verbatim>\<open>while (attempts < maxAttempts)\<close>\<close>
  "cron_loop z cronExpression parts nextRun attempts =
     (if attempts < maxAttempts then
        (if cron_matches z parts nextRun then Inr (Time nextRun)
         else cron_loop z cronExpression parts (addMinute z nextRun) (attempts + 1))
      else Inl (NoFeasibleRun (''Could not find next run time for cron: '' @ cronExpression)))"
  by pat_completeness auto
termination
  by (relation "measure (\<lambda>(z, c, p, t, a). maxAttempts - a)") auto

declare cron_loop.simps [simp del]

definition calculateNextRunFromCron :: "zone \<Rightarrow> string \<Rightarrow> int \<Rightarrow> error + Date" where
  "calculateNextRunFromCron z cronExpression from =
     (let parts = split_ws (trim cronExpression)
      in if length parts \<noteq> 5
         then Inl (InvalidSchedule (''Invalid cron expression: '' @ cronExpression))
         else cron_loop z cronExpression parts (addMinute z (setSeconds00 z from)) 0)"

definition calculateNextRun :: "zone \<Rightarrow> string \<Rightarrow> int \<Rightarrow> error + Date" where
  \<comment> \<open>the first argument is the zone of the process, the last the reading of the clock,
      \<^verbatim>\<open>new Date()\<close>\<close>
  "calculateNextRun z schedule now =
     (if startsWith schedule ''PT'' then calculateNextRunFromInterval schedule now
      else calculateNextRunFromCron z schedule now)"

section \<open>Jobs, the repository and the state of the scheduler\<close>

datatype JobType = EMAIL_NOTIFICATION | NUMBER_CRUNCHING | DATA_PROCESSING | REPORT_GENERATION

datatype JobStatus = ACTIVE | PAUSED | COMPLETED | FAILED

text \<open>
  The entity \<^verbatim>\<open>Job\<close>. The columns \<^verbatim>\<open>metadata\<close>, \<^verbatim>\<open>createdAt\<close> and \<^verbatim>\<open>updatedAt\<close>, which the
  scheduler neither reads nor assigns, are left out. The two counters start at zero and are
  only ever incremented.
\<close>

record Job =
  job_id :: string
  name :: string
  jtype :: JobType
  status :: JobStatus
  description :: "string option"
  schedule :: string
  lastRunAt :: "Date option"
  nextRunAt :: "Date option"
  runCount :: nat
  failureCount :: nat
  lastError :: "string option"

record ScheduledJob =
  sj_id :: string
  sj_nextRunAt :: Date
  timeoutId :: nat

record ExecutingJob =
  ex_id :: string
  startTime :: Date

text \<open>
  A pending \<^verbatim>\<open>setTimeout\<close>: the delay it was armed with (\<open>None\<close> is \<^verbatim>\<open>NaN\<close>) and the job its
  callback holds.
\<close>

record Timer =
  delay :: "int option"
  timer_job :: Job

text \<open>
  One constructor for each call of the logger, with the values its message shows; a date
  is shown by \<^verbatim>\<open>toISOString()\<close>, which needs its time.
\<close>

datatype log_entry =
    LogScheduled string string int
  | LogUnscheduled string
  | WarnAlreadyExecuting string
  | LogExecuting string string
  | WarnNoLongerActive string
  | LogExecuted string int
  | ErrorExecuting string string
  | LogLoaded nat
  | ErrorLoading string

text \<open>
  The world of the service: the table of jobs behind the repository, the batches that were
  written to it, the jobs that were handed to the executor, the two maps of the service
  (\<^verbatim>\<open>scheduledJobs\<close>, the due-time index, and \<^verbatim>\<open>executingJobs\<close>, the execution guard), the
  pending timeouts and the log. What the service cannot decide is read from the world: the
  zone of the process is \<open>timeZone w\<close>, the \<open>n\<close>-th reading of the clock is \<open>clock w n\<close>, and
  the \<open>n\<close>-th call of the repository or of the executor throws the message \<open>faults w n\<close>
  when there is one. Whether the repository accepts a job that holds an Invalid Date is
  for the repository to decide: it is one of the failures that \<open>faults\<close> provides.
\<close>

record world =
  store :: "Job list"
  writes :: "Job list list"
  executed :: "Job list"
  faults :: "nat \<Rightarrow> string option"
  calls :: nat
  timeZone :: zone
  clock :: "nat \<Rightarrow> int"
  ticks :: nat
  scheduledJobs :: "string \<rightharpoonup> ScheduledJob"
  executingJobs :: "string \<rightharpoonup> ExecutingJob"
  timers :: "nat \<rightharpoonup> Timer"
  nextTimeoutId :: nat
  logs :: "log_entry list"

type_synonym 'a action = "world \<Rightarrow> (error + 'a) \<times> world"

definition returnE :: "'a \<Rightarrow> 'a action" where
  "returnE x w = (Inr x, w)"

definition bindE :: "'a action \<Rightarrow> ('a \<Rightarrow> 'b action) \<Rightarrow> 'b action" where
  \<comment> \<open>sequencing: a thrown error skips the rest\<close>
  "bindE m f w = (case m w of (Inl e, w') \<Rightarrow> (Inl e, w') | (Inr x, w') \<Rightarrow> f x w')"

definition logE :: "log_entry \<Rightarrow> unit action" where
  "logE entry w = (Inr (), w\<lparr>logs := logs w @ [entry]\<rparr>)"

definition toISOString :: "Date \<Rightarrow> error + int" where
  \<comment> \<open>the time that the ISO string shows; an Invalid Date has none\<close>
  "toISOString d =
     (case d of Time t \<Rightarrow> Inr t | InvalidDate \<Rightarrow> Inl (RangeError ''Invalid time value''))"

definition logISO :: "(int \<Rightarrow> log_entry) \<Rightarrow> Date \<Rightarrow> unit action" where
  \<comment> \<open>a call of the logger whose message holds \<^verbatim>\<open>d.toISOString()\<close>\<close>
  "logISO entry d w =
     (case toISOString d of
        Inl e \<Rightarrow> (Inl e, w)
      | Inr t \<Rightarrow> (Inr (), w\<lparr>logs := logs w @ [entry t]\<rparr>))"

definition newDate :: "int action" where
  \<comment> \<open>\<^verbatim>\<open>new Date()\<close>, \<^verbatim>\<open>Date.now()\<close>\<close>
  "newDate w = (Inr (clock w (ticks w)), w\<lparr>ticks := Suc (ticks w)\<rparr>)"

definition findOne :: "string \<Rightarrow> Job option action" where
  \<comment> \<open>\<^verbatim>\<open>jobRepository.findOne({ where: { id } })\<close>\<close>
  "findOne i w =
     (case faults w (calls w) of
        Some m \<Rightarrow> (Inl (External m), w\<lparr>calls := Suc (calls w)\<rparr>)
      | None \<Rightarrow> (Inr (find (\<lambda>j. job_id j = i) (store w)), w\<lparr>calls := Suc (calls w)\<rparr>))"

definition getManyActive :: "Job list action" where
  \<comment> \<open>the query for the jobs with \<^verbatim>\<open>status = ACTIVE\<close>\<close>
  "getManyActive w =
     (case faults w (calls w) of
        Some m \<Rightarrow> (Inl (External m), w\<lparr>calls := Suc (calls w)\<rparr>)
      | None \<Rightarrow> (Inr (filter (\<lambda>j. status j = ACTIVE) (store w)), w\<lparr>calls := Suc (calls w)\<rparr>))"

definition upsert :: "Job \<Rightarrow> Job list \<Rightarrow> Job list" where
  "upsert j rows =
     (if job_id j \<in> set (map job_id rows)
      then map (\<lambda>r. if job_id r = job_id j then j else r) rows
      else rows @ [j])"

definition save :: "Job list \<Rightarrow> unit action" where
  \<comment> \<open>\<^verbatim>\<open>jobRepository.save\<close> of one job or of an array of jobs: one call, one write\<close>
  "save js w =
     (case faults w (calls w) of
        Some m \<Rightarrow> (Inl (External m), w\<lparr>calls := Suc (calls w)\<rparr>)
      | None \<Rightarrow>
          (Inr (), w\<lparr>calls := Suc (calls w),
                     store := foldl (\<lambda>rows j. upsert j rows) (store w) js,
                     writes := writes w @ [js]\<rparr>))"

definition execute :: "Job \<Rightarrow> unit action" where
  \<comment> \<open>\<^verbatim>\<open>jobExecutorService.execute(job)\<close>: the attempt is recorded, then it succeeds or throws\<close>
  "execute job w =
     (case faults w (calls w) of
        Some m \<Rightarrow> (Inl (External m), w\<lparr>calls := Suc (calls w), executed := executed w @ [job]\<rparr>)
      | None \<Rightarrow> (Inr (), w\<lparr>calls := Suc (calls w), executed := executed w @ [job]\<rparr>))"

definition calculateNextRunE :: "string \<Rightarrow> Date action" where
  \<comment> \<open>\<^verbatim>\<open>calculateNextRun(schedule)\<close>, which reads the clock\<close>
  "calculateNextRunE sched =
     bindE newDate (\<lambda>now w. (calculateNextRun (timeZone w) sched now, w))"

section \<open>The due-time index\<close>

definition unscheduleJob :: "string \<Rightarrow> world \<Rightarrow> world" where
  "unscheduleJob jobId w =
     (case scheduledJobs w jobId of
        None \<Rightarrow> w
      | Some scheduledJob \<Rightarrow>
          w\<lparr>timers := (timers w)(timeoutId scheduledJob := None),
            scheduledJobs := (scheduledJobs w)(jobId := None),
            logs := logs w @ [LogUnscheduled jobId]\<rparr>)"

definition clamped_delay :: "Date \<Rightarrow> int \<Rightarrow> int option" where
  \<comment> \<open>\<^verbatim>\<open>Math.max(0, nextRunAt.getTime() - now.getTime())\<close>, which is \<^verbatim>\<open>NaN\<close> for an Invalid
      Date\<close>
  "clamped_delay nextRun now =
     (case nextRun of Time t \<Rightarrow> Some (max 0 (t - now)) | InvalidDate \<Rightarrow> None)"

definition arm :: "Job \<Rightarrow> Date \<Rightarrow> int \<Rightarrow> world \<Rightarrow> world" where
  \<comment> \<open>\<^verbatim>\<open>setTimeout\<close> with the clamped delay, then \<^verbatim>\<open>scheduledJobs.set\<close>\<close>
  "arm job nextRun now w =
     w\<lparr>timers := (timers w)(nextTimeoutId w \<mapsto>
          \<lparr>delay = clamped_delay nextRun now, timer_job = job\<rparr>),
       scheduledJobs := (scheduledJobs w)(job_id job \<mapsto>
          \<lparr>sj_id = job_id job, sj_nextRunAt = nextRun, timeoutId = nextTimeoutId w\<rparr>),
       nextTimeoutId := Suc (nextTimeoutId w)\<rparr>"

definition scheduleJob :: "Job \<Rightarrow> unit action" where
  \<comment> \<open>the log line comes last: \<^verbatim>\<open>toISOString()\<close> throws when the timeout is armed and the
      entry is set\<close>
  "scheduleJob job w =
     (if status job \<noteq> ACTIVE then (Inr (), w)
      else bindE (case nextRunAt job of Some d \<Rightarrow> returnE d
                  | None \<Rightarrow> calculateNextRunE (schedule job))
             (\<lambda>nextRun. bindE newDate (\<lambda>now.
                bindE (\<lambda>w'. (Inr (), arm job nextRun now w')) (\<lambda>_.
                logISO (LogScheduled (name job) (job_id job)) nextRun)))
             (unscheduleJob (job_id job) w))"

section \<open>The dispatcher\<close>

definition backoffDelay :: "nat \<Rightarrow> int" where
  \<comment> \<open>\<^verbatim>\<open>Math.min(Math.pow(2, failureCount) * 60000, 3600000)\<close>\<close>
  "backoffDelay n = min (2 ^ n * 60000) 3600000"

definition executeJob_try :: "Job \<Rightarrow> unit action" where
  \<comment> \<open>the \<^verbatim>\<open>try\<close> block\<close>
  "executeJob_try job =
     bindE (logE (LogExecuting (name job) (job_id job))) (\<lambda>_.
     bindE (findOne (job_id job)) (\<lambda>found.
       case found of
         None \<Rightarrow> (\<lambda>w. (Inr (), w\<lparr>logs := logs w @ [WarnNoLongerActive (job_id job)],
                                   executingJobs := (executingJobs w)(job_id job := None)\<rparr>))
       | Some freshJob \<Rightarrow>
           if status freshJob \<noteq> ACTIVE
           then (\<lambda>w. (Inr (), w\<lparr>logs := logs w @ [WarnNoLongerActive (job_id job)],
                                  executingJobs := (executingJobs w)(job_id job := None)\<rparr>))
           else
             bindE newDate (\<lambda>ranAt.
             bindE (execute (freshJob\<lparr>lastRunAt := Some (Time ranAt),
                                      runCount := runCount freshJob + 1\<rparr>)) (\<lambda>_.
             bindE (calculateNextRunE (schedule freshJob)) (\<lambda>nextRun.
             bindE (save [freshJob\<lparr>lastRunAt := Some (Time ranAt),
                                   runCount := runCount freshJob + 1,
                                   nextRunAt := Some nextRun, lastError := None\<rparr>]) (\<lambda>_.
             bindE (scheduleJob (freshJob\<lparr>lastRunAt := Some (Time ranAt),
                                   runCount := runCount freshJob + 1,
                                   nextRunAt := Some nextRun, lastError := None\<rparr>)) (\<lambda>_.
             logISO (LogExecuted (name freshJob)) nextRun)))))))"

definition executeJob_catch :: "Job \<Rightarrow> error \<Rightarrow> unit action" where
  \<comment> \<open>the \<^verbatim>\<open>catch\<close> block\<close>
  "executeJob_catch job err =
     bindE (logE (ErrorExecuting (job_id job) (message err))) (\<lambda>_.
     bindE (findOne (job_id job)) (\<lambda>found.
       case found of
         None \<Rightarrow> returnE ()
       | Some freshJob \<Rightarrow>
           bindE (save [freshJob\<lparr>failureCount := failureCount freshJob + 1,
                                 lastError := Some (message err)\<rparr>]) (\<lambda>_.
           bindE newDate (\<lambda>now.
           bindE (save [freshJob\<lparr>failureCount := failureCount freshJob + 1,
                                 lastError := Some (message err),
                                 nextRunAt := Some (Time (now + backoffDelay (failureCount freshJob + 1)))\<rparr>]) (\<lambda>_.
           scheduleJob (freshJob\<lparr>failureCount := failureCount freshJob + 1,
                                 lastError := Some (message err),
                                 nextRunAt := Some (Time (now + backoffDelay (failureCount freshJob + 1)))\<rparr>))))))"

definition mark_executing :: "Job \<Rightarrow> world \<Rightarrow> world" where
  \<comment> \<open>\<^verbatim>\<open>executingJobs.set(job.id, { id: job.id, startTime: new Date() })\<close>\<close>
  "mark_executing job w =
     w\<lparr>ticks := Suc (ticks w),
       executingJobs := (executingJobs w)(job_id job \<mapsto>
          \<lparr>ex_id = job_id job, startTime = Time (clock w (ticks w))\<rparr>)\<rparr>"

definition executeJob_attempt :: "Job \<Rightarrow> unit action" where
  \<comment> \<open>\<^verbatim>\<open>try\<close>, \<^verbatim>\<open>catch\<close> and \<^verbatim>\<open>finally\<close>: an error of the \<^verbatim>\<open>catch\<close> block leaves the function\<close>
  "executeJob_attempt job w =
     (let (r, w') = (case executeJob_try job w of
                       (Inl e, w1) \<Rightarrow> executeJob_catch job e w1
                     | (Inr u, w1) \<Rightarrow> (Inr u, w1))
      in (r, w'\<lparr>executingJobs := (executingJobs w')(job_id job := None)\<rparr>))"

definition executeJob :: "Job \<Rightarrow> unit action" where
  "executeJob job w =
     (if executingJobs w (job_id job) \<noteq> None then logE (WarnAlreadyExecuting (job_id job)) w
      else executeJob_attempt job (mark_executing job w))"

section \<open>The reconciler\<close>

fun assign_nextRunAt :: "Job list \<Rightarrow> (bool \<times> Job) list action" where
  \<comment> \<open>the loop over \<^verbatim>\<open>jobsToUpdate\<close>, whose objects are objects of \<^verbatim>\<open>activeJobs\<close>: the jobs of
      \<^verbatim>\<open>activeJobs\<close> after the loop, those of \<^verbatim>\<open>jobsToUpdate\<close> marked\<close>
  "assign_nextRunAt [] = returnE []"
| "assign_nextRunAt (job # jobs) =
     (case nextRunAt job of
        Some t \<Rightarrow> bindE (assign_nextRunAt jobs) (\<lambda>r. returnE ((False, job) # r))
      | None \<Rightarrow>
          bindE (calculateNextRunE (schedule job)) (\<lambda>t.
          bindE (assign_nextRunAt jobs) (\<lambda>r. returnE ((True, job\<lparr>nextRunAt := Some t\<rparr>) # r))))"

fun schedule_all :: "Job list \<Rightarrow> unit action" where
  "schedule_all [] = returnE ()"
| "schedule_all (job # jobs) = bindE (scheduleJob job) (\<lambda>_. schedule_all jobs)"

definition loadActiveJobs_try :: "unit action" where
  "loadActiveJobs_try =
     bindE getManyActive (\<lambda>activeJobs.
     bindE (assign_nextRunAt activeJobs) (\<lambda>r.
     bindE (if filter fst r \<noteq> [] then save (map snd (filter fst r)) else returnE ()) (\<lambda>_.
     bindE (schedule_all (map snd r)) (\<lambda>_.
     logE (LogLoaded (length activeJobs))))))"

definition loadActiveJobs :: "world \<Rightarrow> world" where
  \<comment> \<open>every error is caught and logged\<close>
  "loadActiveJobs w =
     (case loadActiveJobs_try w of
        (Inl e, w') \<Rightarrow> w'\<lparr>logs := logs w' @ [ErrorLoading (message e)]\<rparr>
      | (Inr u, w') \<Rightarrow> w')"

section \<open>Notions of the specification\<close>

text \<open>
  Following the specification's words for an interval: \<^verbatim>\<open>PT\<close> followed by optional
  \<^verbatim>\<open><n>H\<close>, \<^verbatim>\<open><n>M\<close>, \<^verbatim>\<open><n>S\<close> in that order, and nothing else.
\<close>

definition spec_interval_form :: "string \<Rightarrow> bool" where
  "spec_interval_form s =
     (startsWith s ''PT'' \<and>
      snd (opt_group CHR ''S'' (snd (opt_group CHR ''M'' (snd (opt_group CHR ''H'' (drop 2 s)))))) = [])"


text \<open>
  A due time is later than a reference time when its time is greater; a comparison with
  the \<^verbatim>\<open>NaN\<close> of an Invalid Date is false.
\<close>

definition later :: "int \<Rightarrow> Date \<Rightarrow> bool" where
  "later from d = (case d of Time t \<Rightarrow> from < t | InvalidDate \<Rightarrow> False)"

text \<open>
  A field that has none of the five forms which \<^verbatim>\<open>matchesCronField\<close> tests for.
\<close>

definition unknown_form :: "string \<Rightarrow> bool" where
  "unknown_form field =
     (field \<noteq> ''*'' \<and> stepMatch field = None \<and> \<not> all_digits field \<and> rangeMatch field = None \<and>
      CHR '','' \<notin> set field)"

text \<open>An action keeps an observation of the world when no run of it changes the observation.\<close>

definition keeps :: "(world \<Rightarrow> 'b) \<Rightarrow> 'a action \<Rightarrow> bool" where
  "keeps g m = (\<forall>w. g (snd (m w)) = g w)"

text \<open>
  The index and the pending timeouts agree: the entry of an identity is filed under that
  identity and names a pending timeout whose job has the identity, and every pending
  timeout is the one that the entry of its job names.
\<close>

definition index_inv :: "world \<Rightarrow> bool" where
  "index_inv w =
     ((\<forall>i sj. scheduledJobs w i = Some sj \<longrightarrow>
         sj_id sj = i \<and> (\<exists>tm. timers w (timeoutId sj) = Some tm \<and> job_id (timer_job tm) = i)) \<and>
      (\<forall>tid tm. timers w tid = Some tm \<longrightarrow>
         tid < nextTimeoutId w \<and>
         (\<exists>sj. scheduledJobs w (job_id (timer_job tm)) = Some sj \<and> timeoutId sj = tid)))"

definition live_timers :: "world \<Rightarrow> string \<Rightarrow> nat set" where
  \<comment> \<open>the pending timeouts whose callback holds a job of the identity\<close>
  "live_timers w i = {tid. \<exists>tm. timers w tid = Some tm \<and> job_id (timer_job tm) = i}"

text \<open>
  The due times of the active jobs at startup, in the order of the query: the due time that
  the job has, or the answer of the calculator at the reading of the clock that the loop of
  the reconciler makes for the job. Only a job without a due time makes a reading, so the
  \<open>k\<close>-th such job is given the reading \<open>c (n + k)\<close>.
\<close>

fun due_times :: "zone \<Rightarrow> (nat \<Rightarrow> int) \<Rightarrow> nat \<Rightarrow> Job list \<Rightarrow> (error + Date) list" where
  "due_times z c n [] = []"
| "due_times z c n (job # jobs) =
     (case nextRunAt job of
        Some d \<Rightarrow> Inr d # due_times z c n jobs
      | None \<Rightarrow> calculateNextRun z (schedule job) (c n) # due_times z c (Suc n) jobs)"

definition with_due :: "Job \<Rightarrow> error + Date \<Rightarrow> Job" where
  \<comment> \<open>a job without a due time receives the one that was computed for it\<close>
  "with_due job r =
     (case nextRunAt job of
        Some d \<Rightarrow> job
      | None \<Rightarrow> (case r of Inr d \<Rightarrow> job\<lparr>nextRunAt := Some d\<rparr> | Inl e \<Rightarrow> job))"

definition assigned :: "Job list \<Rightarrow> (error + Date) list \<Rightarrow> (bool \<times> Job) list" where
  \<comment> \<open>the active jobs with their due times; the jobs that received one are marked\<close>
  "assigned jobs dues = map2 (\<lambda>job r. (nextRunAt job = None, with_due job r)) jobs dues"

fun armed_count :: "Job list \<Rightarrow> nat" where
  \<comment> \<open>how many jobs of the list the scheduling loop reaches: all of them, or those up to
      and including the first whose due time is an Invalid Date\<close>
  "armed_count [] = 0"
| "armed_count (job # jobs) =
     (if nextRunAt job = Some InvalidDate then 1 else Suc (armed_count jobs))"

section \<open>Jobs and worlds to run the service on\<close>

definition example_job :: Job where
  "example_job =
     \<lparr>job_id = ''j1'', name = ''report'', jtype = REPORT_GENERATION, status = ACTIVE,
      description = None, schedule = ''PT5M'', lastRunAt = None, nextRunAt = Some (Time 1000),
      runCount = 0, failureCount = 2, lastError = None\<rparr>"

definition example_world :: "Job list \<Rightarrow> (nat \<Rightarrow> string option) \<Rightarrow> world" where
  "example_world rows f =
     \<lparr>store = rows, writes = [], executed = [], faults = f, calls = 0,
      timeZone = fixed_zone 0, clock = (\<lambda>n. 5000 + 10 * int n), ticks = 0,
      scheduledJobs = Map.empty, executingJobs = Map.empty, timers = Map.empty,
      nextTimeoutId = 0, logs = []\<rparr>"

text \<open>
  A job with no due time and a schedule that the calculator rejects, a second job with no
  due time and a valid schedule, a job whose interval leads beyond the range of
  \<^verbatim>\<open>Date\<close>, and a job that is due on the first day of each month.
\<close>

definition bad_job :: Job where
  "bad_job = example_job\<lparr>schedule := ''bad'', nextRunAt := None\<rparr>"

definition other_job :: Job where
  "other_job = example_job\<lparr>job_id := ''j2'', nextRunAt := None\<rparr>"

definition huge_job :: Job where
  "huge_job = example_job\<lparr>job_id := ''j4'', schedule := ''PT99999999999H'', nextRunAt := None\<rparr>"

definition monthly_job :: Job where
  "monthly_job = example_job\<lparr>job_id := ''j5'', schedule := ''0 0 1 * *'', nextRunAt := None\<rparr>"

text \<open>
  Stores at startup: one whose only active job lacks a due time and has a valid schedule;
  one that also holds a job whose schedule the calculator rejects; one with a job whose due
  time is invalid between two jobs with valid due times; and one with the monthly job, at
  ten o'clock on a day of January 2024 (in UTC).
\<close>

definition startup_world :: world where
  "startup_world =
     example_world [other_job, example_job\<lparr>job_id := ''j3'', status := PAUSED\<rparr>] (\<lambda>n. None)"

definition broken_startup_world :: world where
  "broken_startup_world = example_world [bad_job, other_job] (\<lambda>n. None)"

definition huge_startup_world :: world where
  "huge_startup_world = example_world [example_job, huge_job, other_job] (\<lambda>n. None)"

definition january_world :: "int \<Rightarrow> world" where
  "january_world day =
     (example_world [other_job, monthly_job] (\<lambda>n. None))
       \<lparr>clock := (\<lambda>n. 1704067200000 + (day - 1) * 86400000 + 36000000 + 10 * int n)\<rparr>"

text \<open>A world in which the example job is scheduled.\<close>

definition scheduled_world :: world where
  "scheduled_world =
     (example_world [] (\<lambda>n. None))
       \<lparr>scheduledJobs := [''j1'' \<mapsto> \<lparr>sj_id = ''j1'', sj_nextRunAt = Time 1000, timeoutId = 0\<rparr>],
        timers := [0 \<mapsto> \<lparr>delay = Some 0, timer_job = example_job\<rparr>],
        nextTimeoutId := 1\<rparr>"

section \<open>The cron search\<close>

lemma cron_loop_Inr_iff:
  "cron_loop z c parts t a = Inr d \<longleftrightarrow>
     (\<exists>k. a + k < maxAttempts \<and> d = Time ((addMinute z ^^ k) t) \<and>
          cron_matches z parts ((addMinute z ^^ k) t) \<and>
          (\<forall>j<k. \<not> cron_matches z parts ((addMinute z ^^ j) t)))"
proof (induction z c parts t a rule: cron_loop.induct)
  case (1 z c parts t a)
  let ?f = "addMinute z"
  show ?case
  proof (cases "a < maxAttempts")
    case False
    then show ?thesis by (subst cron_loop.simps) auto
  next
    case lt: True
    show ?thesis
    proof (cases "cron_matches z parts t")
      case True
      have "cron_loop z c parts t a = Inr (Time t)"
        using lt True by (subst cron_loop.simps) simp
      moreover have "(\<exists>k. a + k < maxAttempts \<and> d = Time ((?f ^^ k) t) \<and>
          cron_matches z parts ((?f ^^ k) t) \<and>
          (\<forall>j<k. \<not> cron_matches z parts ((?f ^^ j) t))) \<longleftrightarrow> d = Time t"
      proof
        assume "\<exists>k. a + k < maxAttempts \<and> d = Time ((?f ^^ k) t) \<and>
          cron_matches z parts ((?f ^^ k) t) \<and> (\<forall>j<k. \<not> cron_matches z parts ((?f ^^ j) t))"
        then obtain k where k: "d = Time ((?f ^^ k) t)"
          "\<forall>j<k. \<not> cron_matches z parts ((?f ^^ j) t)"
          by blast
        have "k = 0"
        proof (rule ccontr)
          assume "k \<noteq> 0"
          then have "0 < k" by simp
          with k(2) have "\<not> cron_matches z parts ((?f ^^ 0) t)" by blast
          with True show False by simp
        qed
        with k(1) show "d = Time t" by simp
      next
        assume "d = Time t"
        with True lt show "\<exists>k. a + k < maxAttempts \<and> d = Time ((?f ^^ k) t) \<and>
          cron_matches z parts ((?f ^^ k) t) \<and> (\<forall>j<k. \<not> cron_matches z parts ((?f ^^ j) t))"
          by (intro exI[of _ 0]) simp
      qed
      ultimately show ?thesis by auto
    next
      case False
      have step: "cron_loop z c parts t a = cron_loop z c parts (?f t) (a + 1)"
        using lt False by (subst cron_loop.simps) simp
      have sw: "(?f ^^ k) (?f t) = (?f ^^ Suc k) t" for k
        by (simp add: funpow_swap1)
      have IH: "cron_loop z c parts (?f t) (a + 1) = Inr d \<longleftrightarrow>
         (\<exists>k. a + 1 + k < maxAttempts \<and> d = Time ((?f ^^ Suc k) t) \<and>
              cron_matches z parts ((?f ^^ Suc k) t) \<and>
              (\<forall>j<k. \<not> cron_matches z parts ((?f ^^ Suc j) t)))"
        using "1.IH"[OF lt False] unfolding sw .
      have "(\<exists>k. a + 1 + k < maxAttempts \<and> d = Time ((?f ^^ Suc k) t) \<and>
              cron_matches z parts ((?f ^^ Suc k) t) \<and>
              (\<forall>j<k. \<not> cron_matches z parts ((?f ^^ Suc j) t))) \<longleftrightarrow>
        (\<exists>k. a + k < maxAttempts \<and> d = Time ((?f ^^ k) t) \<and>
              cron_matches z parts ((?f ^^ k) t) \<and>
              (\<forall>j<k. \<not> cron_matches z parts ((?f ^^ j) t)))" (is "?L \<longleftrightarrow> ?R")
      proof
        assume ?L
        then obtain k where k: "a + 1 + k < maxAttempts" "d = Time ((?f ^^ Suc k) t)"
          "cron_matches z parts ((?f ^^ Suc k) t)"
          "\<forall>j<k. \<not> cron_matches z parts ((?f ^^ Suc j) t)"
          by blast
        have "\<forall>j<Suc k. \<not> cron_matches z parts ((?f ^^ j) t)"
        proof (intro allI impI)
          fix j assume "j < Suc k"
          show "\<not> cron_matches z parts ((?f ^^ j) t)"
          proof (cases j)
            case 0
            with False show ?thesis by simp
          next
            case (Suc i)
            with \<open>j < Suc k\<close> have "i < k" by simp
            with k(4) Suc show ?thesis by blast
          qed
        qed
        moreover have "a + Suc k < maxAttempts" using k(1) by simp
        ultimately show ?R using k(2,3) by blast
      next
        assume ?R
        then obtain k where k: "a + k < maxAttempts" "d = Time ((?f ^^ k) t)"
          "cron_matches z parts ((?f ^^ k) t)" "\<forall>j<k. \<not> cron_matches z parts ((?f ^^ j) t)"
          by blast
        from k(3) False have "k \<noteq> 0" by (cases k) auto
        then obtain i where i: "k = Suc i" by (cases k) auto
        have "\<forall>j<i. \<not> cron_matches z parts ((?f ^^ Suc j) t)"
        proof (intro allI impI)
          fix j assume "j < i"
          then have "Suc j < k" using i by simp
          with k(4) show "\<not> cron_matches z parts ((?f ^^ Suc j) t)" by blast
        qed
        moreover have "a + 1 + i < maxAttempts" using k(1) i by simp
        ultimately show ?L using k(2,3) unfolding i by blast
      qed
      with step IH show ?thesis by simp
    qed
  qed
qed

lemma cron_loop_cases:
  "(\<exists>r. cron_loop z c parts t a = Inr (Time r)) \<or>
   cron_loop z c parts t a = Inl (NoFeasibleRun (''Could not find next run time for cron: '' @ c))"
proof (induction z c parts t a rule: cron_loop.induct)
  case (1 z c parts t a)
  show ?case
  proof (cases "a < maxAttempts")
    case False
    then show ?thesis by (subst (1 2) cron_loop.simps) simp
  next
    case lt: True
    show ?thesis
    proof (cases "cron_matches z parts t")
      case True
      with lt show ?thesis by (subst (1 2) cron_loop.simps) simp
    next
      case False
      have "cron_loop z c parts t a = cron_loop z c parts (addMinute z t) (a + 1)"
        using lt False by (subst cron_loop.simps) simp
      with "1.IH"[OF lt False] show ?thesis by simp
    qed
  qed
qed

lemma cron_loop_from_base:
  "cron_loop z c parts (addMinute z base) 0 = Inr d \<longleftrightarrow>
     (\<exists>k. 1 \<le> k \<and> k \<le> 10080 \<and> d = Time ((addMinute z ^^ k) base) \<and>
          cron_matches z parts ((addMinute z ^^ k) base) \<and>
          (\<forall>j. 1 \<le> j \<and> j < k \<longrightarrow> \<not> cron_matches z parts ((addMinute z ^^ j) base)))"
  (is "_ \<longleftrightarrow> ?R")
proof
  let ?f = "addMinute z"
  have sw: "(?f ^^ k) (?f base) = (?f ^^ Suc k) base" for k
    by (simp add: funpow_swap1)
  assume "cron_loop z c parts (?f base) 0 = Inr d"
  then obtain k where k: "0 + k < maxAttempts" "d = Time ((?f ^^ Suc k) base)"
    "cron_matches z parts ((?f ^^ Suc k) base)"
    "\<forall>j<k. \<not> cron_matches z parts ((?f ^^ Suc j) base)"
    unfolding cron_loop_Inr_iff sw by blast
  have no: "\<not> cron_matches z parts ((?f ^^ j) base)" if "1 \<le> j \<and> j < Suc k" for j
  proof -
    from that obtain i where i: "j = Suc i" "i < k" by (cases j) auto
    show ?thesis unfolding i(1) using k(4) i(2) by blast
  qed
  have "1 \<le> Suc k" "Suc k \<le> 10080"
    using k(1) by (simp_all add: maxAttempts_def)
  with k(2,3) no show ?R by blast
next
  let ?f = "addMinute z"
  have sw: "(?f ^^ k) (?f base) = (?f ^^ Suc k) base" for k
    by (simp add: funpow_swap1)
  assume ?R
  then obtain k where k: "1 \<le> k" "k \<le> 10080" "d = Time ((?f ^^ k) base)"
    "cron_matches z parts ((?f ^^ k) base)"
    "\<forall>j. 1 \<le> j \<and> j < k \<longrightarrow> \<not> cron_matches z parts ((?f ^^ j) base)"
    by blast
  from k(1) obtain i where i: "k = Suc i" by (cases k) auto
  have no: "\<not> cron_matches z parts ((?f ^^ Suc j) base)" if "j < i" for j
  proof -
    have "1 \<le> Suc j \<and> Suc j < k"
      using that i by simp
    with k(5) show ?thesis by blast
  qed
  have "0 + i < maxAttempts"
    using k(2) i by (simp add: maxAttempts_def)
  with k(3,4) no have "\<exists>k. 0 + k < maxAttempts \<and> d = Time ((?f ^^ Suc k) base) \<and>
     cron_matches z parts ((?f ^^ Suc k) base) \<and>
     (\<forall>j<k. \<not> cron_matches z parts ((?f ^^ Suc j) base))"
    unfolding i by blast
  then show "cron_loop z c parts (?f base) 0 = Inr d"
    unfolding cron_loop_Inr_iff sw .
qed

lemma cron_loop_from_base_none:
  "cron_loop z c parts (addMinute z base) 0 =
     Inl (NoFeasibleRun (''Could not find next run time for cron: '' @ c)) \<longleftrightarrow>
     (\<forall>k. 1 \<le> k \<and> k \<le> 10080 \<longrightarrow> \<not> cron_matches z parts ((addMinute z ^^ k) base))"
proof
  let ?f = "addMinute z"
  assume inl: "cron_loop z c parts (?f base) 0 =
     Inl (NoFeasibleRun (''Could not find next run time for cron: '' @ c))"
  let ?P = "\<lambda>k. 1 \<le> k \<and> k \<le> 10080 \<and> cron_matches z parts ((?f ^^ k) base)"
  show "\<forall>k. 1 \<le> k \<and> k \<le> 10080 \<longrightarrow> \<not> cron_matches z parts ((?f ^^ k) base)"
  proof (rule ccontr)
    assume "\<not> ?thesis"
    then obtain k0 where "?P k0" by blast
    define k where "k = (LEAST k. ?P k)"
    have k: "?P k" unfolding k_def using \<open>?P k0\<close> by (rule LeastI)
    have least: "\<not> ?P j" if "j < k" for j
      using that not_less_Least unfolding k_def by blast
    have "\<forall>j. 1 \<le> j \<and> j < k \<longrightarrow> \<not> cron_matches z parts ((?f ^^ j) base)"
    proof (intro allI impI)
      fix j assume j: "1 \<le> j \<and> j < k"
      then have "j \<le> 10080" using k by linarith
      with least[of j] j show "\<not> cron_matches z parts ((?f ^^ j) base)" by blast
    qed
    with k have "cron_loop z c parts (?f base) 0 = Inr (Time ((?f ^^ k) base))"
      unfolding cron_loop_from_base by blast
    with inl show False by simp
  qed
next
  let ?f = "addMinute z"
  assume no: "\<forall>k. 1 \<le> k \<and> k \<le> 10080 \<longrightarrow> \<not> cron_matches z parts ((?f ^^ k) base)"
  have "cron_loop z c parts (?f base) 0 \<noteq> Inr d" for d
    unfolding cron_loop_from_base using no by blast
  with cron_loop_cases[of z c parts "?f base" 0]
  show "cron_loop z c parts (?f base) 0 =
     Inl (NoFeasibleRun (''Could not find next run time for cron: '' @ c))"
    by blast
qed

lemma fixed_zone_ops:
  "LocalTime (fixed_zone c) t = t + c" "UTC (fixed_zone c) t = t - c"
  "addMinute (fixed_zone c) t = t + 60000"
  "setSeconds00 (fixed_zone c) t = t - (t + c) mod 60000"
  by (simp_all add: LocalTime_def UTC_def addMinute_def setSeconds00_def fixed_zone_def)

lemma fixed_zone_minutes: "(addMinute (fixed_zone c) ^^ k) t = t + 60000 * int k"
  by (induction k) (simp_all add: fixed_zone_ops)

lemma setSeconds00_fixed:
  "LocalTime (fixed_zone c) (setSeconds00 (fixed_zone c) t) =
     LocalTime (fixed_zone c) t - LocalTime (fixed_zone c) t mod 60000"
  "LocalTime (fixed_zone c) (setSeconds00 (fixed_zone c) t) mod 60000 = 0"
  "setSeconds00 (fixed_zone c) t \<le> t" "t < setSeconds00 (fixed_zone c) t + 60000"
proof -
  have "0 \<le> (t + c) mod 60000" "(t + c) mod 60000 < 60000" by simp_all
  then show "setSeconds00 (fixed_zone c) t \<le> t" "t < setSeconds00 (fixed_zone c) t + 60000"
    by (simp_all add: fixed_zone_ops)
  show "LocalTime (fixed_zone c) (setSeconds00 (fixed_zone c) t) =
     LocalTime (fixed_zone c) t - LocalTime (fixed_zone c) t mod 60000"
    by (simp add: fixed_zone_ops)
  then show "LocalTime (fixed_zone c) (setSeconds00 (fixed_zone c) t) mod 60000 = 0"
    by (simp add: minus_mod_eq_mult_div)
qed

lemma fixed_zone_fields:
  "getMinutes (fixed_zone c) t = nat (((t + c) div 60000) mod 60)"
  "getHours (fixed_zone c) t = nat (((t + c) div 3600000) mod 24)"
  "getDate (fixed_zone c) t = snd (snd (civil ((t + c) div 86400000)))"
  "getMonth (fixed_zone c) t = fst (snd (civil ((t + c) div 86400000))) - 1"
  "getDay (fixed_zone c) t = nat (((t + c) div 86400000 + 4) mod 7)"
  by (simp_all add: getMinutes_def getHours_def getDate_def getMonth_def getDay_def fixed_zone_ops)

lemma cron_matches_fixed:
  "cron_matches (fixed_zone c) parts t = cron_matches (fixed_zone 0) parts (t + c)"
  by (simp add: cron_matches_def fixed_zone_fields)

lemma cron_loop_shift:
  "cron_loop (fixed_zone c) e parts (t - c) a =
     (case cron_loop (fixed_zone 0) e parts t a of Inr (Time r) \<Rightarrow> Inr (Time (r - c)) | x \<Rightarrow> x)"
proof -
  have m: "cron_matches (fixed_zone c) parts (t - c + 60000 * int k) =
           cron_matches (fixed_zone 0) parts (t + 60000 * int k)" for k
    by (simp add: cron_matches_fixed[of c] algebra_simps)
  have iff: "cron_loop (fixed_zone c) e parts (t - c) a = Inr (Time (r - c)) \<longleftrightarrow>
             cron_loop (fixed_zone 0) e parts t a = Inr (Time r)" for r
    unfolding cron_loop_Inr_iff fixed_zone_minutes m by auto
  show ?thesis
  proof (cases "\<exists>r. cron_loop (fixed_zone 0) e parts t a = Inr (Time r)")
    case True
    then obtain r where r: "cron_loop (fixed_zone 0) e parts t a = Inr (Time r)" by blast
    with iff[of r] show ?thesis by simp
  next
    case False
    with cron_loop_cases[of "fixed_zone 0" e parts t a]
    have none: "cron_loop (fixed_zone 0) e parts t a =
        Inl (NoFeasibleRun (''Could not find next run time for cron: '' @ e))" by blast
    have "cron_loop (fixed_zone c) e parts (t - c) a \<noteq> Inr (Time r)" for r
      using iff[of "r + c"] False by simp
    with cron_loop_cases[of "fixed_zone c" e parts "t - c" a]
    have "cron_loop (fixed_zone c) e parts (t - c) a =
        Inl (NoFeasibleRun (''Could not find next run time for cron: '' @ e))" by blast
    with none show ?thesis by simp
  qed
qed

lemma fixed_zone_search:
  assumes "\<not> startsWith s ''PT''"
  shows "calculateNextRun (fixed_zone c) s (from - c) =
           (case calculateNextRun (fixed_zone 0) s from of
              Inr (Time r) \<Rightarrow> Inr (Time (r - c)) | x \<Rightarrow> x)"
proof (cases "length (split_ws (trim s)) = 5")
  case False
  with assms show ?thesis
    by (simp add: calculateNextRun_def calculateNextRunFromCron_def)
next
  case True
  define base where "base = from - from mod 60000 + 60000"
  have e: "addMinute (fixed_zone c) (setSeconds00 (fixed_zone c) (from - c)) = base - c"
    "addMinute (fixed_zone 0) (setSeconds00 (fixed_zone 0) from) = base"
    by (simp_all add: fixed_zone_ops base_def)
  have "calculateNextRun (fixed_zone c) s (from - c) =
          cron_loop (fixed_zone c) s (split_ws (trim s)) (base - c) 0"
    "calculateNextRun (fixed_zone 0) s from =
          cron_loop (fixed_zone 0) s (split_ws (trim s)) base 0"
    using assms True unfolding calculateNextRun_def calculateNextRunFromCron_def Let_def e
    by simp_all
  then show ?thesis
    by (simp only: cron_loop_shift)
qed

lemma matches_star: "matchesCronField ''*'' v"
  by (simp add: matchesCronField_def)

lemma matches_number:
  "matchesCronField ''0'' v \<longleftrightarrow> v = 0" "matchesCronField ''1'' v \<longleftrightarrow> v = 1"
  "matchesCronField ''2'' v \<longleftrightarrow> v = 2" "matchesCronField ''9'' v \<longleftrightarrow> v = 9"
  "matchesCronField ''10'' v \<longleftrightarrow> v = 10" "matchesCronField ''29'' v \<longleftrightarrow> v = 29"
  "matchesCronField ''30'' v \<longleftrightarrow> v = 30"
  by (auto simp: matchesCronField_def stepMatch_def startsWith_def all_digits_def is_digit_def
      digits_val_def digit_val_def)

lemma parts_examples:
  "split_ws (trim ''0 9 * * *'') = [''0'', ''9'', ''*'', ''*'', ''*'']"
  "split_ws (trim ''30 10 2 1 2'') = [''30'', ''10'', ''2'', ''1'', ''2'']"
  "split_ws (trim ''0 0 29 2 *'') = [''0'', ''0'', ''29'', ''2'', ''*'']"
  "split_ws (trim ''0 0 1 * *'') = [''0'', ''0'', ''1'', ''*'', ''*'']"
  "split_ws (trim ''0 0 * * 0'') = [''0'', ''0'', ''*'', ''*'', ''0'']"
  "split_ws (trim ''* * * * *'') = [''*'', ''*'', ''*'', ''*'', ''*'']"
  by (simp_all add: trim_def is_space_def)

lemma minute_fields:
  "getMinutes (fixed_zone 0) (60000 * n) = nat (n mod 60)"
  "getHours (fixed_zone 0) (60000 * n) = nat ((n div 60) mod 24)"
proof -
  have "(60000 * n) div 3600000 = (60000 * n) div 60000 div 60"
    by (subst zdiv_zmult2_eq[symmetric]) simp_all
  then show "getHours (fixed_zone 0) (60000 * n) = nat ((n div 60) mod 24)"
    by (simp add: fixed_zone_fields)
  show "getMinutes (fixed_zone 0) (60000 * n) = nat (n mod 60)"
    by (simp add: fixed_zone_fields)
qed

lemma no_nine_before:
  assumes "1 \<le> j" "j < 1380"
  shows "\<not> (getMinutes (fixed_zone 0) (1704103200000 + 60000 * int j) = 0 \<and>
            getHours (fixed_zone 0) (1704103200000 + 60000 * int j) = 9)"
proof -
  define n where "n = 28401720 + int j"
  define p where "p = n div 60 - 24 * 19723"
  have eq: "1704103200000 + 60000 * int j = 60000 * n"
    by (simp add: n_def)
  have "28401721 div 60 \<le> n div 60" "n div 60 \<le> 28403099 div 60"
    using assms by (intro zdiv_mono1; simp add: n_def)+
  then have p: "10 \<le> p" "p \<le> 32"
    by (simp_all add: p_def)
  have "n div 60 = p + 24 * 19723"
    by (simp add: p_def)
  moreover have "(p + 24 * 19723) mod 24 = p mod 24"
    by (rule mod_mult_self2)
  ultimately have "(n div 60) mod 24 = p mod 24"
    by (simp only:)
  moreover have "p mod 24 \<noteq> 9"
    using p by presburger
  ultimately show ?thesis
    unfolding eq minute_fields by (simp add: nat_eq_iff)
qed

lemma cron_search_utc:
  assumes "\<not> startsWith s ''PT''" and "length (split_ws (trim s)) = 5"
  shows "calculateNextRun (fixed_zone 0) s from =
           cron_loop (fixed_zone 0) s (split_ws (trim s))
             (addMinute (fixed_zone 0) (from - from mod 60000)) 0"
  using assms by (simp add: calculateNextRun_def calculateNextRunFromCron_def fixed_zone_ops)

lemma not_PT_examples:
  "\<not> startsWith ''0 9 * * *'' ''PT''" "\<not> startsWith ''30 10 2 1 2'' ''PT''"
  "\<not> startsWith ''0 0 29 2 *'' ''PT''" "\<not> startsWith ''0 0 1 * *'' ''PT''"
  "\<not> startsWith ''0 0 * * 0'' ''PT''" "\<not> startsWith ''* * * * *'' ''PT''"
  by (simp_all add: startsWith_def)

lemma cron_example:
  "calculateNextRun (fixed_zone 0) ''0 9 * * *'' 1704103200000 = Inr (Time 1704186000000)"
proof -
  let ?parts = "[''0'', ''9'', ''*'', ''*'', ''*'']"
  have m: "cron_matches (fixed_zone 0) ?parts t \<longleftrightarrow>
             getMinutes (fixed_zone 0) t = 0 \<and> getHours (fixed_zone 0) t = 9" for t
    by (simp add: cron_matches_def matches_number matches_star)
  have "cron_loop (fixed_zone 0) ''0 9 * * *'' ?parts (addMinute (fixed_zone 0) 1704103200000) 0 =
          Inr (Time 1704186000000)"
    unfolding cron_loop_from_base m fixed_zone_minutes
  proof (intro exI[of _ 1380] conjI allI impI)
    show "(1::nat) \<le> 1380" "(1380::nat) \<le> 10080" by simp_all
    show "Time 1704186000000 = Time (1704103200000 + 60000 * int 1380)" by simp
    show "getMinutes (fixed_zone 0) (1704103200000 + 60000 * int 1380) = 0"
      by (simp add: fixed_zone_fields)
    show "getHours (fixed_zone 0) (1704103200000 + 60000 * int 1380) = 9"
      by (simp add: fixed_zone_fields)
    fix j :: nat assume "1 \<le> j \<and> j < 1380"
    then show "\<not> (getMinutes (fixed_zone 0) (1704103200000 + 60000 * int j) = 0 \<and>
                  getHours (fixed_zone 0) (1704103200000 + 60000 * int j) = 9)"
      using no_nine_before by blast
  qed
  then show ?thesis
    by (simp add: cron_search_utc not_PT_examples parts_examples)
qed

lemma civil_examples:
  "civil 0 = (1970, 1, 1)" "civil (- 1) = (1969, 12, 31)"
  "civil 11016 = (2000, 2, 29)" "civil 11017 = (2000, 3, 1)"
  "civil 19416 = (2023, 2, 28)" "civil 19417 = (2023, 3, 1)"
  "civil 19723 = (2024, 1, 1)" "civil 19724 = (2024, 1, 2)" "civil 19729 = (2024, 1, 7)"
  "civil 19781 = (2024, 2, 28)" "civil 19782 = (2024, 2, 29)" "civil 19783 = (2024, 3, 1)"
  "civil 20088 = (2024, 12, 31)" "civil 20089 = (2025, 1, 1)"
  "civil 47540 = (2100, 2, 28)" "civil 47541 = (2100, 3, 1)"
  by (simp_all only: civil_def Let_def) simp_all

lemma civil_january:
  "civil 19732 = (2024, 1, 10)" "civil 19733 = (2024, 1, 11)" "civil 19734 = (2024, 1, 12)"
  "civil 19735 = (2024, 1, 13)" "civil 19736 = (2024, 1, 14)" "civil 19737 = (2024, 1, 15)"
  "civil 19738 = (2024, 1, 16)" "civil 19739 = (2024, 1, 17)" "civil 19752 = (2024, 1, 30)"
  "civil 19753 = (2024, 1, 31)" "civil 19754 = (2024, 2, 1)"
  by (simp_all only: civil_def Let_def) simp_all

lemma all_fields_example:
  "calculateNextRun (fixed_zone 0) ''30 10 2 1 2'' 1704191355250 = Inr (Time 1704191400000)"
proof -
  have "cron_matches (fixed_zone 0) [''30'', ''10'', ''2'', ''1'', ''2''] 1704191400000"
    by (simp add: cron_matches_def matches_number fixed_zone_fields civil_examples)
  then show ?thesis
    by (simp add: cron_search_utc not_PT_examples parts_examples fixed_zone_ops
        cron_loop.simps[of _ _ _ 1704191400000 0] maxAttempts_def)
qed

lemma leap_day_example:
  "calculateNextRun (fixed_zone 0) ''0 0 29 2 *'' 1709164710000 = Inr (Time 1709164800000)"
proof -
  have "\<not> cron_matches (fixed_zone 0) [''0'', ''0'', ''29'', ''2'', ''*''] 1709164740000"
    "cron_matches (fixed_zone 0) [''0'', ''0'', ''29'', ''2'', ''*''] 1709164800000"
    by (simp_all add: cron_matches_def matches_number matches_star fixed_zone_fields
        civil_examples)
  then show ?thesis
    by (simp add: cron_search_utc not_PT_examples parts_examples fixed_zone_ops
        cron_loop.simps[of _ _ _ 1709164740000 0]
        cron_loop.simps[of _ _ _ 1709164800000 "Suc 0"] maxAttempts_def)
qed

lemma sunday_example:
  "calculateNextRun (fixed_zone 0) ''0 0 * * 0'' 1704585599999 = Inr (Time 1704585600000)"
proof -
  have "cron_matches (fixed_zone 0) [''0'', ''0'', ''*'', ''*'', ''0''] 1704585600000"
    by (simp add: cron_matches_def matches_number matches_star fixed_zone_fields)
  then show ?thesis
    by (simp add: cron_search_utc not_PT_examples parts_examples fixed_zone_ops
        cron_loop.simps[of _ _ _ 1704585600000 0] maxAttempts_def)
qed

lemma day_number:
  fixes t d n :: int
  assumes "d * 86400000 \<le> t" and "t < (d + n) * 86400000"
  shows "d \<le> t div 86400000 \<and> t div 86400000 < d + n"
proof -
  have "d * 86400000 div 86400000 \<le> t div 86400000"
    using assms(1) by (intro zdiv_mono1) simp_all
  then have lo: "d \<le> t div 86400000" by simp
  have "t div 86400000 < d + n"
    using assms(2) by (simp add: div_less_iff_less_mult)
  with lo show ?thesis by simp
qed

lemma monthly_matches:
  "cron_matches (fixed_zone 0) [''0'', ''0'', ''1'', ''*'', ''*''] t \<longleftrightarrow>
     getMinutes (fixed_zone 0) t = 0 \<and> getHours (fixed_zone 0) t = 0 \<and> getDate (fixed_zone 0) t = 1"
  by (simp add: cron_matches_def matches_number matches_star)

lemma monthly_no_run:
  "calculateNextRun (fixed_zone 0) ''0 0 1 * *'' 1704880800000 =
     Inl (NoFeasibleRun ''Could not find next run time for cron: 0 0 1 * *'')"
proof -
  have no: "getDate (fixed_zone 0) (1704880800000 + 60000 * int k) \<noteq> 1" if "1 \<le> k \<and> k \<le> 10080" for k
  proof -
    define t where "t = 1704880800000 + 60000 * int k"
    define d where "d = t div 86400000"
    have "19732 * 86400000 \<le> t" "t < (19732 + 8) * 86400000"
      using that by (simp_all add: t_def)
    from day_number[OF this] have "19732 \<le> d \<and> d < 19740" by (simp add: d_def)
    then have "d = 19732 \<or> d = 19733 \<or> d = 19734 \<or> d = 19735 \<or> d = 19736 \<or> d = 19737 \<or>
        d = 19738 \<or> d = 19739" by arith
    then have "snd (snd (civil d)) \<noteq> 1"
      by (elim disjE) (simp_all add: civil_january)
    then show ?thesis
      by (simp add: fixed_zone_fields t_def d_def)
  qed
  have "cron_loop (fixed_zone 0) ''0 0 1 * *'' [''0'', ''0'', ''1'', ''*'', ''*'']
          (addMinute (fixed_zone 0) 1704880800000) 0 =
        Inl (NoFeasibleRun (''Could not find next run time for cron: '' @ ''0 0 1 * *''))"
    unfolding cron_loop_from_base_none monthly_matches fixed_zone_minutes using no by blast
  then show ?thesis
    by (simp add: cron_search_utc not_PT_examples parts_examples)
qed

lemma monthly_run:
  "calculateNextRun (fixed_zone 0) ''0 0 1 * *'' 1706608800000 = Inr (Time 1706745600000)"
proof -
  have no: "getDate (fixed_zone 0) (1706608800000 + 60000 * int j) \<noteq> 1" if "1 \<le> j \<and> j < 2280" for j
  proof -
    define t where "t = 1706608800000 + 60000 * int j"
    define d where "d = t div 86400000"
    have "19752 * 86400000 \<le> t" "t < (19752 + 2) * 86400000"
      using that by (simp_all add: t_def)
    from day_number[OF this] have "19752 \<le> d \<and> d < 19754" by (simp add: d_def)
    then have "d = 19752 \<or> d = 19753" by arith
    then have "snd (snd (civil d)) \<noteq> 1"
      by (elim disjE) (simp_all add: civil_january)
    then show ?thesis
      by (simp add: fixed_zone_fields t_def d_def)
  qed
  have "cron_loop (fixed_zone 0) ''0 0 1 * *'' [''0'', ''0'', ''1'', ''*'', ''*'']
          (addMinute (fixed_zone 0) 1706608800000) 0 = Inr (Time 1706745600000)"
    unfolding cron_loop_from_base monthly_matches fixed_zone_minutes
  proof (intro exI[of _ 2280] conjI allI impI)
    show "(1::nat) \<le> 2280" "(2280::nat) \<le> 10080" by simp_all
    show "Time 1706745600000 = Time (1706608800000 + 60000 * int 2280)" by simp
    show "getMinutes (fixed_zone 0) (1706608800000 + 60000 * int 2280) = 0"
      "getHours (fixed_zone 0) (1706608800000 + 60000 * int 2280) = 0"
      "getDate (fixed_zone 0) (1706608800000 + 60000 * int 2280) = 1"
      by (simp_all add: fixed_zone_fields civil_january)
    fix j :: nat assume "1 \<le> j \<and> j < 2280"
    then show "\<not> (getMinutes (fixed_zone 0) (1706608800000 + 60000 * int j) = 0 \<and>
                  getHours (fixed_zone 0) (1706608800000 + 60000 * int j) = 0 \<and>
                  getDate (fixed_zone 0) (1706608800000 + 60000 * int j) = 1)"
      using no by blast
  qed
  then show ?thesis
    by (simp add: cron_search_utc not_PT_examples parts_examples)
qed

text \<open>
  Claim C3. For a schedule of five fields the calculator clears the seconds and the
  milliseconds of the local reference time and tests the instants that it reaches by
  setting the local time one, two, ... up to 10080 minutes on. It returns the first of them
  whose minute, hour, day of the month, month (counted from 1) and day of the week satisfy
  the matchers of the five fields, and when none of the 10080 does it fails with
  \<open>NoFeasibleRun\<close>. In a zone with a fixed offset the start is the reference time rounded
  down to a whole local minute and the \<open>k\<close>-th candidate is \<open>k\<close> times 60000 milliseconds
  later. In every such zone, with all times read as local times: \<^verbatim>\<open>0 9 * * *\<close> at 10:00:00
  on 1 January 2024 gives 09:00 on 2 January; \<^verbatim>\<open>30 10 2 1 2\<close> at 10:29:15.250 on Tuesday
  2 January 2024 gives 10:30:00.000 of that day; \<^verbatim>\<open>0 0 29 2 *\<close> at 23:58:30 on 28 February
  2024 gives 00:00 on the 29th; \<^verbatim>\<open>0 0 * * 0\<close> at 23:59:59.999 on Saturday 6 January 2024
  gives 00:00 on Sunday; \<^verbatim>\<open>0 0 1 * *\<close> at 10:00 on 30 January 2024 gives 00:00 on
  1 February, and at 10:00 on 10 January 2024 it fails with \<open>NoFeasibleRun\<close>.
\<close>

theorem cron_search_first_match:
  fixes z :: zone and "from" :: int
  assumes "\<not> startsWith s ''PT''"
    and "split_ws (trim s) = [minute, hour, day, month, weekday]"
  defines "candidate \<equiv> \<lambda>k. (addMinute z ^^ k) (setSeconds00 z from)"
  defines "matches \<equiv> \<lambda>t. matchesCronField minute (getMinutes z t) \<and>
                           matchesCronField hour (getHours z t) \<and>
                           matchesCronField day (getDate z t) \<and>
                           matchesCronField month (getMonth z t + 1) \<and>
                           matchesCronField weekday (getDay z t)"
  shows "(calculateNextRun z s from = Inr d \<longleftrightarrow>
            (\<exists>k. 1 \<le> k \<and> k \<le> 10080 \<and> d = Time (candidate k) \<and> matches (candidate k) \<and>
                 (\<forall>j. 1 \<le> j \<and> j < k \<longrightarrow> \<not> matches (candidate j)))) \<and>
         (calculateNextRun z s from =
            Inl (NoFeasibleRun (''Could not find next run time for cron: '' @ s)) \<longleftrightarrow>
            (\<forall>k. 1 \<le> k \<and> k \<le> 10080 \<longrightarrow> \<not> matches (candidate k))) \<and>
         candidate 0 = UTC z (LocalTime z from - LocalTime z from mod 60000) \<and>
         candidate (Suc k) = UTC z (LocalTime z (candidate k) + 60000) \<and>
         (z = fixed_zone c \<longrightarrow>
            LocalTime z (candidate 0) = LocalTime z from - LocalTime z from mod 60000 \<and>
            LocalTime z (candidate 0) mod 60000 = 0 \<and>
            candidate 0 \<le> from \<and> from < candidate 0 + 60000 \<and>
            candidate k = candidate 0 + 60000 * int k) \<and>
         calculateNextRun (fixed_zone c) ''0 9 * * *'' (1704103200000 - c) =
           Inr (Time (1704186000000 - c)) \<and>
         calculateNextRun (fixed_zone c) ''30 10 2 1 2'' (1704191355250 - c) =
           Inr (Time (1704191400000 - c)) \<and>
         calculateNextRun (fixed_zone c) ''0 0 29 2 *'' (1709164710000 - c) =
           Inr (Time (1709164800000 - c)) \<and>
         calculateNextRun (fixed_zone c) ''0 0 * * 0'' (1704585599999 - c) =
           Inr (Time (1704585600000 - c)) \<and>
         calculateNextRun (fixed_zone c) ''0 0 1 * *'' (1706608800000 - c) =
           Inr (Time (1706745600000 - c)) \<and>
         calculateNextRun (fixed_zone c) ''0 0 1 * *'' (1704880800000 - c) =
           Inl (NoFeasibleRun ''Could not find next run time for cron: 0 0 1 * *'')"
proof -
  have calc: "calculateNextRun z s from =
      cron_loop z s (split_ws (trim s)) (addMinute z (setSeconds00 z from)) 0"
    using assms(1,2) by (simp add: calculateNextRun_def calculateNextRunFromCron_def)
  have m: "cron_matches z (split_ws (trim s)) t = matches t" for t
    by (simp add: cron_matches_def assms(2) matches_def)
  have found: "calculateNextRun z s from = Inr d \<longleftrightarrow>
            (\<exists>k. 1 \<le> k \<and> k \<le> 10080 \<and> d = Time (candidate k) \<and> matches (candidate k) \<and>
                 (\<forall>j. 1 \<le> j \<and> j < k \<longrightarrow> \<not> matches (candidate j)))"
    unfolding calc cron_loop_from_base m candidate_def ..
  have none: "calculateNextRun z s from =
            Inl (NoFeasibleRun (''Could not find next run time for cron: '' @ s)) \<longleftrightarrow>
            (\<forall>k. 1 \<le> k \<and> k \<le> 10080 \<longrightarrow> \<not> matches (candidate k))"
    unfolding calc cron_loop_from_base_none m candidate_def ..
  have start: "candidate 0 = UTC z (LocalTime z from - LocalTime z from mod 60000)"
    by (simp add: candidate_def setSeconds00_def)
  have step: "candidate (Suc k) = UTC z (LocalTime z (candidate k) + 60000)"
    by (simp add: candidate_def addMinute_def)
  have fixed: "LocalTime z (candidate 0) = LocalTime z from - LocalTime z from mod 60000 \<and>
            LocalTime z (candidate 0) mod 60000 = 0 \<and>
            candidate 0 \<le> from \<and> from < candidate 0 + 60000 \<and>
            candidate k = candidate 0 + 60000 * int k" if "z = fixed_zone c"
    unfolding candidate_def that
    using setSeconds00_fixed[where c = c and t = "from"] by (simp add: fixed_zone_minutes)
  have e1: "calculateNextRun (fixed_zone c) ''0 9 * * *'' (1704103200000 - c) =
           Inr (Time (1704186000000 - c))"
    by (simp add: fixed_zone_search not_PT_examples cron_example)
  have e2: "calculateNextRun (fixed_zone c) ''30 10 2 1 2'' (1704191355250 - c) =
           Inr (Time (1704191400000 - c))"
    by (simp add: fixed_zone_search not_PT_examples all_fields_example)
  have e3: "calculateNextRun (fixed_zone c) ''0 0 29 2 *'' (1709164710000 - c) =
           Inr (Time (1709164800000 - c))"
    by (simp add: fixed_zone_search not_PT_examples leap_day_example)
  have e4: "calculateNextRun (fixed_zone c) ''0 0 * * 0'' (1704585599999 - c) =
           Inr (Time (1704585600000 - c))"
    by (simp add: fixed_zone_search not_PT_examples sunday_example)
  have e5: "calculateNextRun (fixed_zone c) ''0 0 1 * *'' (1706608800000 - c) =
           Inr (Time (1706745600000 - c))"
    by (simp add: fixed_zone_search not_PT_examples monthly_run)
  have e6: "calculateNextRun (fixed_zone c) ''0 0 1 * *'' (1704880800000 - c) =
           Inl (NoFeasibleRun ''Could not find next run time for cron: 0 0 1 * *'')"
    by (simp add: fixed_zone_search not_PT_examples monthly_no_run)
  from found none start step fixed e1 e2 e3 e4 e5 e6 show ?thesis
    by (intro conjI impI) blast+
qed

theorem cron_search_first_match_witness:
  "\<not> startsWith ''30 10 2 1 2'' ''PT'' \<and>
   split_ws (trim ''30 10 2 1 2'') = [''30'', ''10'', ''2'', ''1'', ''2''] \<and>
   calculateNextRun (fixed_zone 19800000) ''30 10 2 1 2'' 1704171555250 =
     Inr (Time 1704171600000) \<and>
   (\<exists>k. 1 \<le> k \<and> k \<le> 10080 \<and>
        Time 1704171600000 =
          Time ((addMinute (fixed_zone 19800000) ^^ k)
                  (setSeconds00 (fixed_zone 19800000) 1704171555250)) \<and>
        matchesCronField ''2'' (getDate (fixed_zone 19800000)
          ((addMinute (fixed_zone 19800000) ^^ k)
             (setSeconds00 (fixed_zone 19800000) 1704171555250)))) \<and>
   LocalTime (fixed_zone 19800000) (setSeconds00 (fixed_zone 19800000) 1704171555250) =
     1704191340000"
proof -
  note t = cron_search_first_match[OF not_PT_examples(2) parts_examples(2),
      of "fixed_zone 19800000" 1704171555250 "Time 1704171600000" _ 19800000]
  have run: "calculateNextRun (fixed_zone 19800000) ''30 10 2 1 2'' 1704171555250 =
     Inr (Time 1704171600000)"
    using t[THEN conjunct2, THEN conjunct2, THEN conjunct2, THEN conjunct2, THEN conjunct2,
            THEN conjunct2, THEN conjunct1] by simp
  with t[THEN conjunct1] have
    "\<exists>k. 1 \<le> k \<and> k \<le> 10080 \<and>
        Time 1704171600000 =
          Time ((addMinute (fixed_zone 19800000) ^^ k)
                  (setSeconds00 (fixed_zone 19800000) 1704171555250)) \<and>
        matchesCronField ''2'' (getDate (fixed_zone 19800000)
          ((addMinute (fixed_zone 19800000) ^^ k)
             (setSeconds00 (fixed_zone 19800000) 1704171555250)))"
    by blast
  moreover have "LocalTime (fixed_zone 19800000)
      (setSeconds00 (fixed_zone 19800000) 1704171555250) = 1704191340000"
    using t[THEN conjunct2, THEN conjunct2, THEN conjunct2, THEN conjunct2, THEN conjunct1]
    by (simp add: fixed_zone_ops)
  ultimately show ?thesis
    using run not_PT_examples(2) parts_examples(2) by blast
qed

section \<open>Interval schedules\<close>




lemma interval_examples:
  "calculateNextRun z ''PT1H'' t = Inr (mkDate (t + 3600000))"
  "calculateNextRun z ''PT5M'' t = Inr (mkDate (t + 300000))"
  "calculateNextRun z ''PT0S'' t = Inl (InvalidSchedule ''Interval must be greater than 0'')"
  "calculateNextRun z ''PT99999999999H'' t = Inr (mkDate (t + 359999999996400000))"
  by (simp_all add: calculateNextRun_def startsWith_def calculateNextRunFromInterval_def
      interval_match_def opt_group_def is_digit_def group_val_def digits_val_def digit_val_def)



text \<open>
  Claim C4. A schedule that begins with \<^verbatim>\<open>PT\<close> gives the date of the reference time plus
  the decoded duration (lemma \<open>interval_result\<close>), and fails when the duration is zero. The
  claim also lets it fail whenever the text is not \<^verbatim>\<open>PT\<close> followed by the optional
  components in their order. The pattern of the code has no anchors: it matches at the
  leading \<^verbatim>\<open>PT\<close> of every such schedule and ignores what follows the components it could
  read, so that the test for a text that does not match never fires. For \<^verbatim>\<open>PT30M1H\<close>,
  which does not have the form, the code answers thirty minutes: at 10:00:00 UTC on
  1 January 2024 it answers 10:30:00.
\<close>

theorem interval_accepts_trailing_text:
  "\<not> spec_interval_form ''PT30M1H'' \<and>
   calculateNextRun z ''PT30M1H'' from = Inr (mkDate (from + 1800000)) \<and>
   calculateNextRun z ''PT30M1H'' 1704103200000 = Inr (Time 1704105000000)"
  by (simp add: spec_interval_form_def calculateNextRun_def startsWith_def
      calculateNextRunFromInterval_def interval_match_def opt_group_def is_digit_def group_val_def
      digits_val_def digit_val_def mkDate_def maxTime_def)

section \<open>The next due time and the reference time\<close>







section \<open>Fields that the matcher cannot decode\<close>

lemma unknown_form_no_match: "unknown_form field \<Longrightarrow> \<not> matchesCronField field v"
  by (simp add: unknown_form_def matchesCronField_def)

lemma cron_matches_field:
  assumes "cron_matches z parts t" and "i < 5"
  shows "\<exists>v. matchesCronField (parts ! i) v"
proof -
  from \<open>i < 5\<close> have "i = 0 \<or> i = 1 \<or> i = 2 \<or> i = 3 \<or> i = 4" by arith
  with assms(1) show ?thesis
    unfolding cron_matches_def by blast
qed

lemma cron_loop_no_match:
  assumes "\<And>t. \<not> cron_matches z parts t"
  shows "cron_loop z c parts t a = Inl (NoFeasibleRun (''Could not find next run time for cron: '' @ c))"
proof -
  have "cron_loop z c parts t a \<noteq> Inr r" for r
    unfolding cron_loop_Inr_iff using assms by blast
  with cron_loop_cases[of z c parts t a] show ?thesis by blast
qed

lemma unknown_field_no_run:
  assumes "\<not> startsWith s ''PT''" and "length (split_ws (trim s)) = 5"
    and "i < 5" and "unknown_form (split_ws (trim s) ! i)"
  shows "calculateNextRun z s from = Inl (NoFeasibleRun (''Could not find next run time for cron: '' @ s))"
proof -
  have "\<not> cron_matches z (split_ws (trim s)) t" for t
    using cron_matches_field[of z "split_ws (trim s)" t i] assms(3,4) unknown_form_no_match
    by blast
  then have "cron_loop z s (split_ws (trim s)) (addMinute z (setSeconds00 z from)) 0 =
      Inl (NoFeasibleRun (''Could not find next run time for cron: '' @ s))"
    by (rule cron_loop_no_match)
  with assms(1,2) show ?thesis
    by (simp add: calculateNextRun_def calculateNextRunFromCron_def)
qed

lemma comma_list_match:
  assumes "field \<noteq> ''*''" "stepMatch field = None" "\<not> all_digits field" "rangeMatch field = None"
    "CHR '','' \<in> set field"
  shows "matchesCronField field v \<longleftrightarrow>
           (\<exists>tok \<in> set (split_on CHR '','' field). parseInt (trim tok) = Some (int v))"
proof -
  have "matchesCronField field v \<longleftrightarrow>
          Some (int v) \<in> (\<lambda>t. parseInt (trim t)) ` set (split_on CHR '','' field)"
    using assms by (simp add: matchesCronField_def)
  also have "\<dots> \<longleftrightarrow> (\<exists>tok \<in> set (split_on CHR '','' field). parseInt (trim tok) = Some (int v))"
    unfolding image_iff by metis
  finally show ?thesis .
qed

lemma unknown_abc: "unknown_form ''abc''"
  by (simp add: unknown_form_def stepMatch_def startsWith_def all_digits_def is_digit_def
      rangeMatch_def)

lemma parts_abc: "split_ws (trim ''abc * * * *'') = [''abc'', ''*'', ''*'', ''*'', ''*'']"
  by (simp add: trim_def is_space_def)

lemma list_5_abc:
  "''5,abc'' \<noteq> ''*''" "stepMatch ''5,abc'' = None" "\<not> all_digits ''5,abc''"
  "rangeMatch ''5,abc'' = None" "CHR '','' \<in> set ''5,abc''"
  by (simp_all add: stepMatch_def startsWith_def all_digits_def is_digit_def rangeMatch_def)

lemma tokens_5_abc: "split_on CHR '','' ''5,abc'' = [''5'', ''abc'']"
  by simp

lemma parseInt_5: "parseInt (trim ''5'') = Some 5" "parseInt (trim ''abc'') = None"
  by (simp_all add: parseInt_def trim_def is_space_def is_digit_def digits_val_def digit_val_def)

text \<open>
  Claim C5, as amended. A field of none of the five forms raises no error: it matches no
  value, so that the search of a five-field schedule with such a field ends after its 10080
  candidates with \<open>NoFeasibleRun\<close>. A field with a comma, of none of the earlier forms,
  matches a value exactly when \<^verbatim>\<open>parseInt\<close> reads that value from one of its pieces; a piece
  that decodes to no number is passed over.
\<close>

theorem unknown_field_matches_nothing:
  "(unknown_form field \<longrightarrow> \<not> matchesCronField field v) \<and>
   (\<not> startsWith s ''PT'' \<and> length (split_ws (trim s)) = 5 \<and>
      (\<exists>i<5. unknown_form (split_ws (trim s) ! i)) \<longrightarrow>
      calculateNextRun z s from =
        Inl (NoFeasibleRun (''Could not find next run time for cron: '' @ s))) \<and>
   (list \<noteq> ''*'' \<and> stepMatch list = None \<and> \<not> all_digits list \<and> rangeMatch list = None \<and>
      CHR '','' \<in> set list \<longrightarrow>
      (matchesCronField list v \<longleftrightarrow>
         (\<exists>tok \<in> set (split_on CHR '','' list). parseInt (trim tok) = Some (int v))))"
proof -
  have a: "unknown_form field \<longrightarrow> \<not> matchesCronField field v"
    using unknown_form_no_match by blast
  have b: "calculateNextRun z s from =
        Inl (NoFeasibleRun (''Could not find next run time for cron: '' @ s))"
    if "\<not> startsWith s ''PT'' \<and> length (split_ws (trim s)) = 5 \<and>
      (\<exists>i<5. unknown_form (split_ws (trim s) ! i))"
  proof -
    from that obtain i where "\<not> startsWith s ''PT''" "length (split_ws (trim s)) = 5"
      "i < 5" "unknown_form (split_ws (trim s) ! i)" by blast
    then show ?thesis by (rule unknown_field_no_run)
  qed
  have c: "matchesCronField list v \<longleftrightarrow>
         (\<exists>tok \<in> set (split_on CHR '','' list). parseInt (trim tok) = Some (int v))"
    if "list \<noteq> ''*'' \<and> stepMatch list = None \<and> \<not> all_digits list \<and> rangeMatch list = None \<and>
      CHR '','' \<in> set list"
    using that comma_list_match by blast
  from a b c show ?thesis by blast
qed

theorem unknown_field_matches_nothing_witness:
  "unknown_form ''abc'' \<and> \<not> matchesCronField ''abc'' 7 \<and>
   \<not> startsWith ''abc * * * *'' ''PT'' \<and> length (split_ws (trim ''abc * * * *'')) = 5 \<and>
   unknown_form (split_ws (trim ''abc * * * *'') ! 0) \<and>
   calculateNextRun (fixed_zone 0) ''abc * * * *'' 0 =
     Inl (NoFeasibleRun ''Could not find next run time for cron: abc * * * *'') \<and>
   CHR '','' \<in> set ''5,abc'' \<and> matchesCronField ''5,abc'' 5 \<and> \<not> matchesCronField ''5,abc'' 6"
proof -
  have h: "\<not> startsWith ''abc * * * *'' ''PT''" "length (split_ws (trim ''abc * * * *'')) = 5"
    "unknown_form (split_ws (trim ''abc * * * *'') ! 0)"
    by (simp_all add: startsWith_def parts_abc unknown_abc)
  then have ex: "\<exists>i<5. unknown_form (split_ws (trim ''abc * * * *'') ! i)"
    by (intro exI[of _ 0]) simp
  note thm5 = unknown_field_matches_nothing[of "''abc''" _ "''abc * * * *''" "fixed_zone 0" 0 "''5,abc''"]
  have "\<not> matchesCronField ''abc'' 7"
    using thm5[of 7] unknown_abc by blast
  moreover have "calculateNextRun (fixed_zone 0) ''abc * * * *'' 0 =
     Inl (NoFeasibleRun ''Could not find next run time for cron: abc * * * *'')"
    using thm5[of 7] h(1,2) ex by simp
  moreover have "matchesCronField ''5,abc'' 5"
    using thm5[of 5] list_5_abc by (simp add: tokens_5_abc parseInt_5)
  moreover have "\<not> matchesCronField ''5,abc'' 6"
    using thm5[of 6] list_5_abc by (simp add: tokens_5_abc parseInt_5)
  ultimately show ?thesis using h unknown_abc list_5_abc(5) by blast
qed

text \<open>
  The claim as it was stated fails: the schedule \<^verbatim>\<open>abc * * * *\<close> fails with \<open>NoFeasibleRun\<close>,
  not with \<open>InvalidSchedule\<close>, and the list \<^verbatim>\<open>5,abc\<close>, whose second piece decodes to no
  number, matches the value 5.
\<close>

theorem undecodable_token_counterexample:
  "calculateNextRun (fixed_zone 0) ''abc * * * *'' 0 =
     Inl (NoFeasibleRun ''Could not find next run time for cron: abc * * * *'') \<and>
   parseInt (trim ''abc'') = None \<and> matchesCronField ''5,abc'' 5"
proof -
  have "calculateNextRun (fixed_zone 0) ''abc * * * *'' 0 =
     Inl (NoFeasibleRun (''Could not find next run time for cron: '' @ ''abc * * * *''))"
    by (rule unknown_field_no_run[of _ 0]) (simp_all add: startsWith_def parts_abc unknown_abc)
  moreover have "matchesCronField ''5,abc'' 5"
    using comma_list_match[OF list_5_abc, of 5] by (simp add: tokens_5_abc parseInt_5)
  ultimately show ?thesis by (simp add: parseInt_5)
qed

section \<open>The execution guard\<close>

lemma keeps_returnE: "keeps g (returnE x)"
  by (simp add: keeps_def returnE_def)

lemma keeps_bindE: "keeps g m \<Longrightarrow> (\<And>x. keeps g (f x)) \<Longrightarrow> keeps g (bindE m f)"
  by (auto simp: keeps_def bindE_def split: prod.splits sum.splits) (metis snd_conv)+

lemma keeps_comp: "keeps g m \<Longrightarrow> keeps (\<lambda>w. h (g w)) m"
  by (simp add: keeps_def)

lemma keeps_guard_prims:
  "keeps executingJobs (logE entry)" "keeps executingJobs newDate"
  "keeps executingJobs (findOne i)" "keeps executingJobs (save js)"
  "keeps executingJobs (execute job)" "keeps executingJobs getManyActive"
  "keeps executingJobs (logISO f d)"
  by (simp_all add: keeps_def logE_def newDate_def findOne_def save_def execute_def
      getManyActive_def logISO_def toISOString_def split: option.splits Date.splits)

lemma keeps_guard_calc: "keeps executingJobs (calculateNextRunE sched)"
  by (simp add: keeps_def calculateNextRunE_def bindE_def newDate_def)

lemma guard_unscheduleJob: "executingJobs (unscheduleJob i w) = executingJobs w"
  by (simp add: unscheduleJob_def split: option.splits)

lemma keeps_guard_scheduleJob: "keeps executingJobs (scheduleJob job)"
  by (simp add: keeps_def scheduleJob_def bindE_def calculateNextRunE_def newDate_def returnE_def
      arm_def guard_unscheduleJob logISO_def toISOString_def
      split: option.splits sum.splits Date.splits)


lemma keeps_guard_catch: "keeps executingJobs (executeJob_catch job err)"
  unfolding executeJob_catch_def
  apply (rule keeps_bindE, rule keeps_guard_prims)
  apply (rule keeps_bindE, rule keeps_guard_prims)
  apply (split option.split, intro conjI impI allI)
   apply (rule keeps_returnE)
  apply (intro keeps_bindE keeps_guard_prims keeps_guard_scheduleJob)
  done

lemma keeps_abort:
  "keeps (\<lambda>w. (executingJobs w)(i := None))
     (\<lambda>w. (Inr (), w\<lparr>logs := logs w @ [entry], executingJobs := (executingJobs w)(i := None)\<rparr>))"
  by (simp add: keeps_def)

lemma keeps_drop:
  "keeps executingJobs m \<Longrightarrow> keeps (\<lambda>w. (executingJobs w)(i := None)) m"
  by (simp add: keeps_def)

lemmas keeps_guard_but =
  keeps_guard_prims[THEN keeps_drop] keeps_guard_calc[THEN keeps_drop]
  keeps_guard_scheduleJob[THEN keeps_drop]

lemma keeps_guard_try:
  "keeps (\<lambda>w. (executingJobs w)(job_id job := None)) (executeJob_try job)"
  unfolding executeJob_try_def
  apply (rule keeps_bindE, rule keeps_guard_but)
  apply (rule keeps_bindE, rule keeps_guard_but)
  apply (split option.split, intro conjI impI allI)
   apply (rule keeps_abort)
  apply (split if_split, intro conjI impI)
   apply (rule keeps_abort)
  apply (intro keeps_bindE keeps_guard_but)
  done

lemma guard_after_attempt:
  "executingJobs (snd (executeJob_attempt job w)) = (executingJobs w)(job_id job := None)"
proof -
  obtain r1 w1 where t: "executeJob_try job w = (r1, w1)" by (cases "executeJob_try job w")
  have w1: "(executingJobs w1)(job_id job := None) = (executingJobs w)(job_id job := None)"
    using keeps_guard_try[of job] t by (auto simp: keeps_def dest: spec[of _ w])
  show ?thesis
  proof (cases r1)
    case (Inr u)
    with t w1 show ?thesis by (simp add: executeJob_attempt_def)
  next
    case (Inl e)
    obtain r2 w2 where c: "executeJob_catch job e w1 = (r2, w2)"
      by (cases "executeJob_catch job e w1")
    have "executingJobs w2 = executingJobs w1"
      using keeps_guard_catch[of job e] c by (auto simp: keeps_def dest: spec[of _ w1])
    with t Inl c w1 show ?thesis by (simp add: executeJob_attempt_def)
  qed
qed

text \<open>
  Claim C6. An invocation of \<^verbatim>\<open>executeJob\<close> that enters the guard leaves it again on every
  path: whatever the repository and the executor do (success, a failing executor, a failing
  write, the early return for a job that is no longer active, even an error that escapes
  the \<^verbatim>\<open>catch\<close> block), the identity is absent from the guard afterwards, and the guard is
  as it was before the invocation.
\<close>

theorem guard_released_on_every_path:
  assumes "executingJobs w (job_id job) = None"
  shows "executingJobs (mark_executing job w) (job_id job) \<noteq> None \<and>
         executingJobs (snd (executeJob job w)) (job_id job) = None \<and>
         executingJobs (snd (executeJob job w)) = executingJobs w"
proof -
  have "executingJobs (snd (executeJob job w)) =
          (executingJobs (mark_executing job w))(job_id job := None)"
    using assms by (simp add: executeJob_def guard_after_attempt)
  also have "\<dots> = executingJobs w"
    using assms by (auto simp: mark_executing_def)
  finally have eq: "executingJobs (snd (executeJob job w)) = executingJobs w" .
  with assms show ?thesis by (simp add: mark_executing_def)
qed

theorem guard_released_on_every_path_witness:
  "executingJobs (example_world [example_job] (\<lambda>n. if n = 1 then Some ''boom'' else None))
     (job_id example_job) = None \<and>
   executingJobs (snd (executeJob example_job
     (example_world [example_job] (\<lambda>n. if n = 1 then Some ''boom'' else None))))
     (job_id example_job) = None \<and>
   executingJobs (example_world [] (\<lambda>n. Some ''down'')) (job_id example_job) = None \<and>
   executingJobs (snd (executeJob example_job (example_world [] (\<lambda>n. Some ''down''))))
     (job_id example_job) = None"
proof -
  have a: "executingJobs (example_world [example_job] (\<lambda>n. if n = 1 then Some ''boom'' else None))
     (job_id example_job) = None"
    and b: "executingJobs (example_world [] (\<lambda>n. Some ''down'')) (job_id example_job) = None"
    by (simp_all add: example_world_def)
  from guard_released_on_every_path[OF a] guard_released_on_every_path[OF b] a b
  show ?thesis by simp
qed

section \<open>One execution for two dispatches\<close>

lemma keepsD: "keeps g m \<Longrightarrow> g (snd (m w)) = g w"
  by (simp add: keeps_def)

lemma bindE_logE: "bindE (logE entry) f w = f () (w\<lparr>logs := logs w @ [entry]\<rparr>)"
  by (simp add: bindE_def logE_def)

lemma bindE_newDate: "bindE newDate f w = f (clock w (ticks w)) (w\<lparr>ticks := Suc (ticks w)\<rparr>)"
  by (simp add: bindE_def newDate_def)

lemma bindE_returnE: "bindE (returnE x) f w = f x w"
  by (simp add: bindE_def returnE_def)

lemma bindE_findOne:
  "bindE (findOne i) f w =
     (case faults w (calls w) of
        Some m \<Rightarrow> (Inl (External m), w\<lparr>calls := Suc (calls w)\<rparr>)
      | None \<Rightarrow> f (find (\<lambda>j. job_id j = i) (store w)) (w\<lparr>calls := Suc (calls w)\<rparr>))"
  by (simp add: bindE_def findOne_def split: option.splits)

lemma bindE_execute:
  "bindE (execute job) f w =
     (case faults w (calls w) of
        Some m \<Rightarrow> (Inl (External m), w\<lparr>calls := Suc (calls w), executed := executed w @ [job]\<rparr>)
      | None \<Rightarrow> f () (w\<lparr>calls := Suc (calls w), executed := executed w @ [job]\<rparr>))"
  by (simp add: bindE_def execute_def split: option.splits)

lemma bindE_save:
  "bindE (save js) f w =
     (case faults w (calls w) of
        Some m \<Rightarrow> (Inl (External m), w\<lparr>calls := Suc (calls w)\<rparr>)
      | None \<Rightarrow> f () (w\<lparr>calls := Suc (calls w),
                         store := foldl (\<lambda>rows j. upsert j rows) (store w) js,
                         writes := writes w @ [js]\<rparr>))"
  by (simp add: bindE_def save_def split: option.splits)

lemma bindE_calculateNextRunE:
  "bindE (calculateNextRunE sched) f w =
     (case calculateNextRun (timeZone w) sched (clock w (ticks w)) of
        Inl e \<Rightarrow> (Inl e, w\<lparr>ticks := Suc (ticks w)\<rparr>)
      | Inr t \<Rightarrow> f t (w\<lparr>ticks := Suc (ticks w)\<rparr>))"
  by (simp add: bindE_def calculateNextRunE_def newDate_def split: sum.splits)

lemma keeps_executed_prims:
  "keeps executed (logE entry)" "keeps executed newDate"
  "keeps executed (findOne i)" "keeps executed (save js)" "keeps executed getManyActive"
  "keeps executed (calculateNextRunE sched)" "keeps executed (logISO f d)"
  by (simp_all add: keeps_def logE_def newDate_def findOne_def save_def getManyActive_def
      calculateNextRunE_def bindE_def logISO_def toISOString_def
      split: option.splits Date.splits)

lemma keeps_executed_scheduleJob: "keeps executed (scheduleJob job)"
  by (simp add: keeps_def scheduleJob_def bindE_def calculateNextRunE_def newDate_def returnE_def
      arm_def unscheduleJob_def logISO_def toISOString_def
      split: option.splits sum.splits Date.splits)

lemma keeps_executed_catch: "keeps executed (executeJob_catch job err)"
  unfolding executeJob_catch_def
  apply (rule keeps_bindE, rule keeps_executed_prims)
  apply (rule keeps_bindE, rule keeps_executed_prims)
  apply (split option.split, intro conjI impI allI)
   apply (rule keeps_returnE)
  apply (intro keeps_bindE keeps_executed_prims keeps_executed_scheduleJob)
  done

lemma executed_after_run:
  "executed (snd (bindE (calculateNextRunE sched) (\<lambda>nextRun.
             bindE (save [f nextRun]) (\<lambda>_.
             bindE (scheduleJob (g nextRun)) (\<lambda>_. logISO l nextRun))) w)) = executed w"
  by (rule keepsD) (intro keeps_bindE keeps_executed_prims keeps_executed_scheduleJob)

lemma executed_try:
  "executed (snd (executeJob_try job w)) =
     (case faults w (calls w) of
        Some m \<Rightarrow> executed w
      | None \<Rightarrow>
          (case find (\<lambda>j. job_id j = job_id job) (store w) of
             None \<Rightarrow> executed w
           | Some fresh \<Rightarrow>
               if status fresh \<noteq> ACTIVE then executed w
               else executed w @ [fresh\<lparr>lastRunAt := Some (Time (clock w (ticks w))),
                                        runCount := runCount fresh + 1\<rparr>]))"
proof (cases "faults w (calls w)")
  case (Some m)
  then show ?thesis
    by (simp add: executeJob_try_def bindE_logE bindE_findOne)
next
  case None
  show ?thesis
  proof (cases "find (\<lambda>j. job_id j = job_id job) (store w)")
    case nf: None
    with None show ?thesis
      by (simp add: executeJob_try_def bindE_logE bindE_findOne)
  next
    case (Some fresh)
    show ?thesis
    proof (cases "status fresh = ACTIVE")
      case False
      with None Some show ?thesis
        by (simp add: executeJob_try_def bindE_logE bindE_findOne)
    next
      case True
      let ?ran = "fresh\<lparr>lastRunAt := Some (Time (clock w (ticks w))), runCount := runCount fresh + 1\<rparr>"
      let ?w3 = "w\<lparr>logs := logs w @ [LogExecuting (name job) (job_id job)],
                    calls := Suc (calls w), ticks := Suc (ticks w)\<rparr>"
      let ?rest = "\<lambda>u::unit. bindE (calculateNextRunE (schedule fresh)) (\<lambda>nextRun.
             bindE (save [?ran\<lparr>nextRunAt := Some nextRun, lastError := None\<rparr>]) (\<lambda>_.
             bindE (scheduleJob (?ran\<lparr>nextRunAt := Some nextRun, lastError := None\<rparr>)) (\<lambda>_.
             logISO (LogExecuted (name fresh)) nextRun)))"
      have step: "executeJob_try job w = bindE (execute ?ran) ?rest ?w3"
        using None Some True
        by (simp add: executeJob_try_def bindE_logE bindE_findOne bindE_newDate)
      have "executed (snd (bindE (execute ?ran) ?rest ?w3)) = executed w @ [?ran]"
        by (simp add: bindE_execute executed_after_run split: option.splits)
      with None Some True step show ?thesis by simp
    qed
  qed
qed

lemma executed_attempt:
  "executed (snd (executeJob_attempt job w)) = executed (snd (executeJob_try job w))"
proof -
  obtain r1 w1 where t: "executeJob_try job w = (r1, w1)" by (cases "executeJob_try job w")
  show ?thesis
  proof (cases r1)
    case (Inr u)
    with t show ?thesis by (simp add: executeJob_attempt_def)
  next
    case (Inl e)
    obtain r2 w2 where c: "executeJob_catch job e w1 = (r2, w2)"
      by (cases "executeJob_catch job e w1")
    have "executed w2 = executed w1"
      using keepsD[OF keeps_executed_catch, of job e w1] c by simp
    with t Inl c show ?thesis by (simp add: executeJob_attempt_def)
  qed
qed

text \<open>
  Claim C1. When the identity of the job is in the guard, \<^verbatim>\<open>executeJob\<close> returns normally
  and changes nothing but the log, to which it adds the warning. Otherwise it enters the
  guard and makes the attempt. So when the job is dispatched a second time while the first
  dispatch holds the guard, the second is suppressed, and the two dispatches together hand
  the job to the executor exactly once (the job being active and the repository readable).
\<close>

theorem duplicate_dispatch_suppressed:
  "(executingJobs w (job_id job) \<noteq> None \<longrightarrow>
      executeJob job w = (Inr (), w\<lparr>logs := logs w @ [WarnAlreadyExecuting (job_id job)]\<rparr>)) \<and>
   (executingJobs w (job_id job) = None \<longrightarrow>
      executeJob job w = executeJob_attempt job (mark_executing job w) \<and>
      executingJobs (mark_executing job w) (job_id job) \<noteq> None \<and>
      executeJob job (mark_executing job w) =
        (Inr (), (mark_executing job w)\<lparr>logs := logs w @ [WarnAlreadyExecuting (job_id job)]\<rparr>)) \<and>
   (executingJobs w (job_id job) = None \<and> faults w (calls w) = None \<and>
    find (\<lambda>j. job_id j = job_id job) (store w) = Some fresh \<and> status fresh = ACTIVE \<longrightarrow>
      executed (snd (executeJob_attempt job (snd (executeJob job (mark_executing job w))))) =
        executed w @ [fresh\<lparr>lastRunAt := Some (Time (clock w (Suc (ticks w)))),
                             runCount := runCount fresh + 1\<rparr>])"
proof -
  have a: "executeJob job w = (Inr (), w\<lparr>logs := logs w @ [WarnAlreadyExecuting (job_id job)]\<rparr>)"
    if "executingJobs w (job_id job) \<noteq> None" for w
    using that by (auto simp: executeJob_def logE_def)
  have held: "executingJobs (mark_executing job w) (job_id job) \<noteq> None"
    by (simp add: mark_executing_def)
  have second: "executeJob job (mark_executing job w) =
        (Inr (), (mark_executing job w)\<lparr>logs := logs w @ [WarnAlreadyExecuting (job_id job)]\<rparr>)"
    using a[OF held] by (simp add: mark_executing_def)
  have b: "executeJob job w = executeJob_attempt job (mark_executing job w)"
    if "executingJobs w (job_id job) = None"
    using that by (simp add: executeJob_def)
  have c: "executed (snd (executeJob_attempt job (snd (executeJob job (mark_executing job w))))) =
        executed w @ [fresh\<lparr>lastRunAt := Some (Time (clock w (Suc (ticks w)))),
                             runCount := runCount fresh + 1\<rparr>]"
    if "faults w (calls w) = None \<and>
        find (\<lambda>j. job_id j = job_id job) (store w) = Some fresh \<and> status fresh = ACTIVE"
  proof -
    have w2: "snd (executeJob job (mark_executing job w)) =
        (mark_executing job w)\<lparr>logs := logs w @ [WarnAlreadyExecuting (job_id job)]\<rparr>"
      by (simp add: second)
    show ?thesis
      unfolding w2 using that
      by (simp add: executed_attempt executed_try mark_executing_def)
  qed
  from a[of w] held second b c show ?thesis by blast
qed

theorem duplicate_dispatch_suppressed_witness:
  "executingJobs (example_world [example_job] (\<lambda>n. None)) (job_id example_job) = None \<and>
   executingJobs (mark_executing example_job (example_world [example_job] (\<lambda>n. None)))
     (job_id example_job) \<noteq> None \<and>
   fst (executeJob example_job
         (mark_executing example_job (example_world [example_job] (\<lambda>n. None)))) = Inr () \<and>
   executed (snd (executeJob example_job
         (mark_executing example_job (example_world [example_job] (\<lambda>n. None))))) = [] \<and>
   executed (snd (executeJob_attempt example_job (snd (executeJob example_job
         (mark_executing example_job (example_world [example_job] (\<lambda>n. None))))))) =
     [example_job\<lparr>lastRunAt := Some (Time 5010), runCount := 1\<rparr>]"
proof -
  let ?w = "example_world [example_job] (\<lambda>n. None)"
  have free: "executingJobs ?w (job_id example_job) = None"
    by (simp add: example_world_def)
  have held: "executingJobs (mark_executing example_job ?w) (job_id example_job) \<noteq> None"
    by (simp add: mark_executing_def)
  have h: "faults ?w (calls ?w) = None"
    "find (\<lambda>j. job_id j = job_id example_job) (store ?w) = Some example_job"
    "status example_job = ACTIVE"
    by (simp_all add: example_world_def example_job_def)
  have v: "clock ?w (Suc (ticks ?w)) = 5010" "runCount example_job + 1 = 1" "executed ?w = []"
    by (simp_all add: example_world_def example_job_def)
  have eq: "executeJob example_job (mark_executing example_job ?w) =
      (Inr (), (mark_executing example_job ?w)
                 \<lparr>logs := logs (mark_executing example_job ?w) @
                            [WarnAlreadyExecuting (job_id example_job)]\<rparr>)"
    using duplicate_dispatch_suppressed[of "mark_executing example_job ?w" example_job example_job]
      held by blast
  have a: "fst (executeJob example_job (mark_executing example_job ?w)) = Inr ()"
    unfolding eq by simp
  have b: "executed (snd (executeJob example_job (mark_executing example_job ?w))) = []"
    unfolding eq by (simp add: mark_executing_def example_world_def)
  have "executed (snd (executeJob_attempt example_job (snd (executeJob example_job
         (mark_executing example_job ?w))))) =
      executed ?w @ [example_job\<lparr>lastRunAt := Some (Time (clock ?w (Suc (ticks ?w)))),
                                   runCount := runCount example_job + 1\<rparr>]"
    using duplicate_dispatch_suppressed[of ?w example_job example_job] free h by blast
  then have c: "executed (snd (executeJob_attempt example_job (snd (executeJob example_job
         (mark_executing example_job ?w))))) =
      [example_job\<lparr>lastRunAt := Some (Time 5010), runCount := 1\<rparr>]"
    by (simp only: v append_Nil)
  from free held a b c show ?thesis by (intro conjI)
qed

section \<open>Success and failure of an attempt\<close>

lemma find_job_id: "find (\<lambda>j. job_id j = i) rows = Some stored \<Longrightarrow> job_id stored = i"
  by (induction rows) (auto split: if_splits)

lemma find_in_rows: "find (\<lambda>j. job_id j = i) rows = Some stored \<Longrightarrow> i \<in> set (map job_id rows)"
  by (induction rows) (auto split: if_splits)

lemma find_map_replace:
  "i \<in> set (map job_id rows) \<Longrightarrow> job_id j = i \<Longrightarrow>
   find (\<lambda>r. job_id r = i) (map (\<lambda>r. if job_id r = i then j else r) rows) = Some j"
  by (induction rows) auto

lemma find_absent: "i \<notin> set (map job_id rows) \<Longrightarrow> find (\<lambda>r. job_id r = i) (rows @ [j]) = (if job_id j = i then Some j else None)"
  by (induction rows) auto

lemma find_upsert: "find (\<lambda>r. job_id r = job_id j) (upsert j rows) = Some j"
proof (cases "job_id j \<in> set (map job_id rows)")
  case True
  then show ?thesis by (simp add: upsert_def find_map_replace del: set_map)
next
  case False
  then show ?thesis by (simp add: upsert_def find_absent del: set_map)
qed

lemma ids_map_replace:
  "job_id j = i \<Longrightarrow> map job_id (map (\<lambda>r. if job_id r = i then j else r) rows) = map job_id rows"
  by (induction rows) auto

lemma map_replace_absent:
  "i \<notin> set (map job_id rows) \<Longrightarrow> map (\<lambda>r. if job_id r = i then j else r) rows = rows"
  by (induction rows) auto

lemma upsert_upsert:
  assumes "job_id a = job_id b"
  shows "upsert b (upsert a rows) = upsert b rows"
proof (cases "job_id b \<in> set (map job_id rows)")
  case True
  have "upsert a rows = map (\<lambda>r. if job_id r = job_id b then a else r) rows"
    using True assms by (simp add: upsert_def del: set_map)
  moreover have "map job_id (map (\<lambda>r. if job_id r = job_id b then a else r) rows) = map job_id rows"
    using assms by (rule ids_map_replace)
  ultimately have "upsert b (upsert a rows) =
      map (\<lambda>r. if job_id r = job_id b then b else r)
        (map (\<lambda>r. if job_id r = job_id b then a else r) rows)"
    using True unfolding upsert_def[of b] by (simp only: if_True)
  also have "\<dots> = map (\<lambda>r. if job_id r = job_id b then b else r) rows"
    using assms by (induction rows) auto
  also have "\<dots> = upsert b rows"
    using True by (simp add: upsert_def del: set_map)
  finally show ?thesis .
next
  case False
  have "upsert a rows = rows @ [a]"
    using False assms by (simp add: upsert_def del: set_map)
  moreover have "job_id b \<in> set (map job_id (rows @ [a]))"
    using assms by simp
  ultimately have "upsert b (upsert a rows) =
      map (\<lambda>r. if job_id r = job_id b then b else r) (rows @ [a])"
    unfolding upsert_def[of b] by (simp only: if_True)
  also have "\<dots> = rows @ [b]"
    using map_replace_absent[OF False] assms by simp
  also have "\<dots> = upsert b rows"
    using False by (simp add: upsert_def del: set_map)
  finally show ?thesis .
qed

lemma unscheduleJob_fields:
  "store (unscheduleJob i w) = store w" "writes (unscheduleJob i w) = writes w"
  "executed (unscheduleJob i w) = executed w" "faults (unscheduleJob i w) = faults w"
  "calls (unscheduleJob i w) = calls w" "clock (unscheduleJob i w) = clock w"
  "ticks (unscheduleJob i w) = ticks w" "executingJobs (unscheduleJob i w) = executingJobs w"
  "nextTimeoutId (unscheduleJob i w) = nextTimeoutId w"
  "timeZone (unscheduleJob i w) = timeZone w"
  by (simp_all add: unscheduleJob_def split: option.splits)

lemma arm_fields:
  "store (arm job t now w) = store w" "writes (arm job t now w) = writes w"
  "executed (arm job t now w) = executed w" "faults (arm job t now w) = faults w"
  "calls (arm job t now w) = calls w" "clock (arm job t now w) = clock w"
  "ticks (arm job t now w) = ticks w" "executingJobs (arm job t now w) = executingJobs w"
  "nextTimeoutId (arm job t now w) = Suc (nextTimeoutId w)"
  "scheduledJobs (arm job t now w) (job_id job) =
     Some \<lparr>sj_id = job_id job, sj_nextRunAt = t, timeoutId = nextTimeoutId w\<rparr>"
  "timers (arm job t now w) (nextTimeoutId w) =
     Some \<lparr>delay = clamped_delay t now, timer_job = job\<rparr>"
  "logs (arm job t now w) = logs w" "timeZone (arm job t now w) = timeZone w"
  by (simp_all add: arm_def)

lemma bindE_arm_log:
  "bindE (\<lambda>w'. (Inr (), arm job d now w')) (\<lambda>_. logISO entry d) u =
     (case d of
        Time t \<Rightarrow> (Inr (), (arm job d now u)\<lparr>logs := logs u @ [entry t]\<rparr>)
      | InvalidDate \<Rightarrow> (Inl (RangeError ''Invalid time value''), arm job d now u))"
  by (simp add: bindE_def logISO_def toISOString_def arm_def split: Date.splits)

lemma scheduleJob_due:
  "status job = ACTIVE \<Longrightarrow> nextRunAt job = Some (Time t) \<Longrightarrow>
   scheduleJob job w =
     (Inr (), (arm job (Time t) (clock w (ticks w))
                 ((unscheduleJob (job_id job) w)\<lparr>ticks := Suc (ticks w)\<rparr>))
              \<lparr>logs := logs (unscheduleJob (job_id job) w) @
                         [LogScheduled (name job) (job_id job) t]\<rparr>)"
  by (simp add: scheduleJob_def bindE_returnE bindE_newDate bindE_arm_log unscheduleJob_fields)

lemma executeJob_failure:
  assumes guard: "executingJobs w (job_id job) = None"
    and found: "find (\<lambda>j. job_id j = job_id job) (store w) = Some stored"
    and active: "status stored = ACTIVE"
    and f0: "faults w (calls w) = None"
    and f1: "faults w (calls w + 1) = Some m"
    and f2: "faults w (calls w + 2) = None"
    and f3: "faults w (calls w + 3) = None"
    and f4: "faults w (calls w + 4) = None"
  defines "now \<equiv> clock w (ticks w + 2)"
  defines "failed \<equiv> stored\<lparr>failureCount := failureCount stored + 1, lastError := Some m,
                             nextRunAt := Some (Time (now + backoffDelay (failureCount stored + 1)))\<rparr>"
  defines "w' \<equiv> snd (executeJob job w)"
  shows "fst (executeJob job w) = Inr ()"
    and "store w' = upsert failed (store w)"
    and "writes w' = writes w @ [[stored\<lparr>failureCount := failureCount stored + 1,
                                          lastError := Some m\<rparr>], [failed]]"
    and "scheduledJobs w' (job_id job) =
           Some \<lparr>sj_id = job_id job,
                 sj_nextRunAt = Time (now + backoffDelay (failureCount stored + 1)),
                 timeoutId = nextTimeoutId w\<rparr>"
    and "timers w' (nextTimeoutId w) =
           Some \<lparr>delay = Some (max 0 (now + backoffDelay (failureCount stored + 1) -
                                        clock w (ticks w + 3))),
                 timer_job = failed\<rparr>"
    and "ticks w' = ticks w + 4"
    and "calls w' = calls w + 5"
    and "executingJobs w' = executingJobs w"
    and "faults w' = faults w"
    and "clock w' = clock w"
proof -
  have id: "job_id stored = job_id job"
    using found by (rule find_job_id)
  have fs: "faults w (Suc (calls w)) = Some m" "faults w (Suc (Suc (calls w))) = None"
    "faults w (Suc (Suc (Suc (calls w)))) = None"
    "faults w (Suc (Suc (Suc (Suc (calls w))))) = None"
    using f1 f2 f3 f4 by (simp_all add: eval_nat_numeral)
  define due where "due = now + backoffDelay (failureCount stored + 1)"
  define ran where "ran = stored\<lparr>lastRunAt := Some (Time (clock w (Suc (ticks w)))),
                                  runCount := runCount stored + 1\<rparr>"
  define first where "first = stored\<lparr>failureCount := failureCount stored + 1, lastError := Some m\<rparr>"
  define w1 where "w1 = mark_executing job w"
  define w4 where "w4 = w1\<lparr>logs := logs w @ [LogExecuting (name job) (job_id job)],
               calls := calls w + 2, ticks := ticks w + 2, executed := executed w @ [ran]\<rparr>"
  define w7 where "w7 = w4\<lparr>logs := logs w @ [LogExecuting (name job) (job_id job),
                                      ErrorExecuting (job_id job) m],
               calls := calls w + 5, ticks := ticks w + 3,
               store := upsert failed (store w), writes := writes w @ [[first], [failed]]\<rparr>"
  define A where "A = (arm failed (Time due) (clock w (ticks w + 3))
                 ((unscheduleJob (job_id job) w7)\<lparr>ticks := ticks w + 4\<rparr>))
                 \<lparr>logs := logs (unscheduleJob (job_id job) w7) @
                            [LogScheduled (name failed) (job_id failed) due]\<rparr>"
  have tr: "executeJob_try job w1 = (Inl (External m), w4)"
    using found active f0 fs
    by (simp add: executeJob_try_def bindE_logE bindE_findOne bindE_newDate bindE_execute
        w1_def w4_def ran_def mark_executing_def eval_nat_numeral)
  have ca: "executeJob_catch job (External m) w4 = scheduleJob failed w7"
    using found fs id
    apply (simp add: executeJob_catch_def bindE_logE bindE_findOne bindE_newDate bindE_save
        w1_def w4_def w7_def first_def mark_executing_def upsert_upsert failed_def now_def
        eval_nat_numeral)
    apply (rule arg_cong[where f = "scheduleJob _"])
    apply (rule world.equality; simp)
    done
  have "scheduleJob failed w7 =
      (Inr (), (arm failed (Time due) (clock w7 (ticks w7))
                 ((unscheduleJob (job_id failed) w7)\<lparr>ticks := Suc (ticks w7)\<rparr>))
                 \<lparr>logs := logs (unscheduleJob (job_id failed) w7) @
                            [LogScheduled (name failed) (job_id failed) due]\<rparr>)"
    using active by (intro scheduleJob_due) (simp_all add: failed_def due_def)
  moreover have "clock w7 (ticks w7) = clock w (ticks w + 3)" "Suc (ticks w7) = ticks w + 4"
    "job_id failed = job_id job"
    using id by (simp_all add: w7_def w4_def w1_def mark_executing_def failed_def)
  ultimately have sched: "scheduleJob failed w7 = (Inr (), A)"
    by (simp add: A_def)
  have att: "executeJob_attempt job w1 =
      (Inr (), A\<lparr>executingJobs := (executingJobs A)(job_id job := None)\<rparr>)"
    by (simp add: executeJob_attempt_def tr ca sched)
  have run: "executeJob job w = (Inr (), A\<lparr>executingJobs := (executingJobs A)(job_id job := None)\<rparr>)"
    using guard att by (simp add: executeJob_def w1_def)
  have jid: "job_id failed = job_id job"
    using id by (simp add: failed_def)
  have w7_fields: "store w7 = upsert failed (store w)" "writes w7 = writes w @ [[first], [failed]]"
    "calls w7 = calls w + 5" "executingJobs w7 = (executingJobs w)(job_id job \<mapsto>
          \<lparr>ex_id = job_id job, startTime = Time (clock w (ticks w))\<rparr>)"
    "nextTimeoutId w7 = nextTimeoutId w"
    by (simp_all add: w7_def w4_def w1_def mark_executing_def)
  show "fst (executeJob job w) = Inr ()" by (simp add: run)
  show "store w' = upsert failed (store w)"
    by (simp add: w'_def run A_def arm_fields unscheduleJob_fields w7_fields)
  show "writes w' = writes w @ [[stored\<lparr>failureCount := failureCount stored + 1,
                                          lastError := Some m\<rparr>], [failed]]"
    by (simp add: w'_def run A_def arm_fields unscheduleJob_fields w7_fields first_def)
  show "scheduledJobs w' (job_id job) =
           Some \<lparr>sj_id = job_id job,
                 sj_nextRunAt = Time (now + backoffDelay (failureCount stored + 1)),
                 timeoutId = nextTimeoutId w\<rparr>"
    using arm_fields(10)[of failed "Time due" "clock w (ticks w + 3)"
        "(unscheduleJob (job_id job) w7)\<lparr>ticks := ticks w + 4\<rparr>"] jid
    by (simp add: w'_def run A_def unscheduleJob_fields w7_fields due_def)
  show "timers w' (nextTimeoutId w) =
           Some \<lparr>delay = Some (max 0 (now + backoffDelay (failureCount stored + 1) -
                                        clock w (ticks w + 3))),
                 timer_job = failed\<rparr>"
    using arm_fields(11)[of failed "Time due" "clock w (ticks w + 3)"
        "(unscheduleJob (job_id job) w7)\<lparr>ticks := ticks w + 4\<rparr>"]
    by (simp add: w'_def run A_def unscheduleJob_fields w7_fields due_def clamped_delay_def)
  show "ticks w' = ticks w + 4"
    by (simp add: w'_def run A_def arm_fields)
  show "calls w' = calls w + 5"
    by (simp add: w'_def run A_def arm_fields unscheduleJob_fields w7_fields)
  show "executingJobs w' = executingJobs w"
    using guard by (auto simp: w'_def run A_def arm_fields unscheduleJob_fields w7_fields)
  show "faults w' = faults w" "clock w' = clock w"
    by (simp_all add: w'_def run A_def arm_fields unscheduleJob_fields w7_def w4_def w1_def
        mark_executing_def)
qed

lemma executeJob_success:
  assumes guard: "executingJobs w (job_id job) = None"
    and found: "find (\<lambda>j. job_id j = job_id job) (store w) = Some stored"
    and active: "status stored = ACTIVE"
    and f0: "faults w (calls w) = None"
    and f1: "faults w (calls w + 1) = None"
    and f2: "faults w (calls w + 2) = None"
    and calc: "calculateNextRun (timeZone w) (schedule stored) (clock w (ticks w + 2)) =
                 Inr (Time next)"
  defines "finished \<equiv> stored\<lparr>lastRunAt := Some (Time (clock w (ticks w + 1))),
                               runCount := runCount stored + 1,
                               nextRunAt := Some (Time next), lastError := None\<rparr>"
  defines "w' \<equiv> snd (executeJob job w)"
  shows "fst (executeJob job w) = Inr ()"
    and "store w' = upsert finished (store w)"
    and "writes w' = writes w @ [[finished]]"
    and "executed w' = executed w @ [stored\<lparr>lastRunAt := Some (Time (clock w (ticks w + 1))),
                                              runCount := runCount stored + 1\<rparr>]"
    and "scheduledJobs w' (job_id job) =
           Some \<lparr>sj_id = job_id job, sj_nextRunAt = Time next, timeoutId = nextTimeoutId w\<rparr>"
    and "ticks w' = ticks w + 4"
    and "calls w' = calls w + 3"
    and "executingJobs w' = executingJobs w"
    and "faults w' = faults w"
    and "clock w' = clock w"
proof -
  have id: "job_id stored = job_id job"
    using found by (rule find_job_id)
  have fs: "faults w (Suc (calls w)) = None" "faults w (Suc (Suc (calls w))) = None"
    using f1 f2 by (simp_all add: eval_nat_numeral)
  have calc': "calculateNextRun (timeZone w) (schedule stored) (clock w (Suc (Suc (ticks w)))) =
      Inr (Time next)"
    using calc by (simp add: eval_nat_numeral)
  define ran where "ran = stored\<lparr>lastRunAt := Some (Time (clock w (ticks w + 1))),
                                  runCount := runCount stored + 1\<rparr>"
  define w1 where "w1 = mark_executing job w"
  define w6 where "w6 = w1\<lparr>logs := logs w @ [LogExecuting (name job) (job_id job)],
               calls := calls w + 3, ticks := ticks w + 3, executed := executed w @ [ran],
               store := upsert finished (store w), writes := writes w @ [[finished]]\<rparr>"
  define A where "A = (arm finished (Time next) (clock w (ticks w + 3))
                 ((unscheduleJob (job_id job) w6)\<lparr>ticks := ticks w + 4\<rparr>))
                 \<lparr>logs := logs (unscheduleJob (job_id job) w6) @
                            [LogScheduled (name finished) (job_id finished) next]\<rparr>"
  have "scheduleJob finished w6 =
      (Inr (), (arm finished (Time next) (clock w6 (ticks w6))
                 ((unscheduleJob (job_id finished) w6)\<lparr>ticks := Suc (ticks w6)\<rparr>))
                 \<lparr>logs := logs (unscheduleJob (job_id finished) w6) @
                            [LogScheduled (name finished) (job_id finished) next]\<rparr>)"
    using active by (intro scheduleJob_due) (simp_all add: finished_def)
  moreover have "clock w6 (ticks w6) = clock w (ticks w + 3)" "Suc (ticks w6) = ticks w + 4"
    "job_id finished = job_id job"
    using id by (simp_all add: w6_def w1_def mark_executing_def finished_def)
  ultimately have sched: "scheduleJob finished w6 = (Inr (), A)"
    by (simp add: A_def)
  have step: "executeJob_try job w1 =
      bindE (scheduleJob finished) (\<lambda>_. logISO (LogExecuted (name stored)) (Time next)) w6"
    using found active f0 fs calc'
    apply (simp add: executeJob_try_def bindE_logE bindE_findOne bindE_newDate bindE_execute
        bindE_calculateNextRunE bindE_save w1_def w6_def ran_def finished_def mark_executing_def
        eval_nat_numeral)
    apply (rule arg_cong[where f = "bindE _ _"])
    apply (rule world.equality; simp)
    done
  have tr: "executeJob_try job w1 = (Inr (), A\<lparr>logs := logs A @ [LogExecuted (name stored) next]\<rparr>)"
    by (simp add: step bindE_def sched logISO_def toISOString_def)
  have att: "executeJob_attempt job w1 =
      (Inr (), A\<lparr>logs := logs A @ [LogExecuted (name stored) next],
                 executingJobs := (executingJobs A)(job_id job := None)\<rparr>)"
    by (simp add: executeJob_attempt_def tr)
  have run: "executeJob job w =
      (Inr (), A\<lparr>logs := logs A @ [LogExecuted (name stored) next],
                 executingJobs := (executingJobs A)(job_id job := None)\<rparr>)"
    using guard att by (simp add: executeJob_def w1_def)
  have jid: "job_id finished = job_id job"
    using id by (simp add: finished_def)
  have w6_fields: "store w6 = upsert finished (store w)" "writes w6 = writes w @ [[finished]]"
    "calls w6 = calls w + 3" "executingJobs w6 = (executingJobs w)(job_id job \<mapsto>
          \<lparr>ex_id = job_id job, startTime = Time (clock w (ticks w))\<rparr>)"
    "nextTimeoutId w6 = nextTimeoutId w" "executed w6 = executed w @ [ran]"
    "faults w6 = faults w" "clock w6 = clock w"
    by (simp_all add: w6_def w1_def mark_executing_def)
  show "fst (executeJob job w) = Inr ()" by (simp add: run)
  show "store w' = upsert finished (store w)"
    by (simp add: w'_def run A_def arm_fields unscheduleJob_fields w6_fields)
  show "writes w' = writes w @ [[finished]]"
    by (simp add: w'_def run A_def arm_fields unscheduleJob_fields w6_fields)
  show "executed w' = executed w @ [stored\<lparr>lastRunAt := Some (Time (clock w (ticks w + 1))),
                                              runCount := runCount stored + 1\<rparr>]"
    by (simp add: w'_def run A_def arm_fields unscheduleJob_fields w6_fields ran_def)
  show "scheduledJobs w' (job_id job) =
           Some \<lparr>sj_id = job_id job, sj_nextRunAt = Time next, timeoutId = nextTimeoutId w\<rparr>"
    using arm_fields(10)[of finished "Time next" "clock w (ticks w + 3)"
        "(unscheduleJob (job_id job) w6)\<lparr>ticks := ticks w + 4\<rparr>"] jid
    by (simp add: w'_def run A_def unscheduleJob_fields w6_fields)
  show "ticks w' = ticks w + 4"
    by (simp add: w'_def run A_def arm_fields)
  show "calls w' = calls w + 3"
    by (simp add: w'_def run A_def arm_fields unscheduleJob_fields w6_fields)
  show "executingJobs w' = executingJobs w"
    using guard by (auto simp: w'_def run A_def arm_fields unscheduleJob_fields w6_fields)
  show "faults w' = faults w" "clock w' = clock w"
    by (simp_all add: w'_def run A_def arm_fields unscheduleJob_fields w6_fields)
qed

lemma example_PT5M:
  "- maxTime \<le> t \<Longrightarrow> t + 300000 \<le> maxTime \<Longrightarrow>
   calculateNextRun z ''PT5M'' t = Inr (Time (t + 300000))"
  by (simp add: interval_examples mkDate_def)



text \<open>
  Claim C10. A successful attempt writes the stored job with \<open>lastRunAt\<close>, \<open>runCount\<close>,
  \<open>nextRunAt\<close> and \<open>lastError\<close> changed and every other field as it was; \<open>failureCount\<close>
  is not reset. A failure of the next attempt therefore continues from the count that was
  stored before the success.
\<close>

theorem success_leaves_failureCount:
  assumes "executingJobs w (job_id job) = None"
    and "find (\<lambda>j. job_id j = job_id job) (store w) = Some stored"
    and "status stored = ACTIVE"
    and "faults w (calls w) = None"
    and "faults w (calls w + 1) = None"
    and "faults w (calls w + 2) = None"
    and "calculateNextRun (timeZone w) (schedule stored) (clock w (ticks w + 2)) = Inr (Time next)"
  defines "finished \<equiv> stored\<lparr>lastRunAt := Some (Time (clock w (ticks w + 1))),
                               runCount := runCount stored + 1,
                               nextRunAt := Some (Time next), lastError := None\<rparr>"
  defines "w' \<equiv> snd (executeJob job w)"
  shows "fst (executeJob job w) = Inr () \<and>
         store w' = upsert finished (store w) \<and>
         find (\<lambda>j. job_id j = job_id job) (store w') = Some finished \<and>
         writes w' = writes w @ [[finished]] \<and>
         failureCount finished = failureCount stored \<and>
         finished\<lparr>lastRunAt := lastRunAt stored, runCount := runCount stored,
                  nextRunAt := nextRunAt stored, lastError := lastError stored\<rparr> = stored \<and>
         (faults w (calls w + 3) = None \<and> faults w (calls w + 4) = Some m \<and>
          faults w (calls w + 5) = None \<and> faults w (calls w + 6) = None \<and>
          faults w (calls w + 7) = None \<longrightarrow>
            find (\<lambda>j. job_id j = job_id job) (store (snd (executeJob job w'))) =
              Some (finished\<lparr>failureCount := failureCount stored + 1, lastError := Some m,
                      nextRunAt := Some (Time (clock w (ticks w + 6) +
                                               backoffDelay (failureCount stored + 1)))\<rparr>))"
proof -
  note r = executeJob_success[OF assms(1-7)]
  have id: "job_id finished = job_id job"
    using find_job_id[OF assms(2)] by (simp add: finished_def)
  have st: "store w' = upsert finished (store w)"
    using r(2) by (simp add: w'_def finished_def)
  have "find (\<lambda>j. job_id j = job_id finished) (store w') = Some finished"
    unfolding st by (rule find_upsert)
  then have fnd: "find (\<lambda>j. job_id j = job_id job) (store w') = Some finished"
    by (simp add: id)
  have wr: "writes w' = writes w @ [[finished]]"
    using r(3) by (simp add: w'_def finished_def)
  have same: "failureCount finished = failureCount stored"
    "finished\<lparr>lastRunAt := lastRunAt stored, runCount := runCount stored,
              nextRunAt := nextRunAt stored, lastError := lastError stored\<rparr> = stored"
    by (simp_all add: finished_def)
  have later: "find (\<lambda>j. job_id j = job_id job) (store (snd (executeJob job w'))) =
              Some (finished\<lparr>failureCount := failureCount stored + 1, lastError := Some m,
                      nextRunAt := Some (Time (clock w (ticks w + 6) +
                                               backoffDelay (failureCount stored + 1)))\<rparr>)"
    if f: "faults w (calls w + 3) = None \<and> faults w (calls w + 4) = Some m \<and>
          faults w (calls w + 5) = None \<and> faults w (calls w + 6) = None \<and>
          faults w (calls w + 7) = None"
  proof -
    have w'f: "faults w' = faults w" "calls w' = calls w + 3" "clock w' = clock w"
      "ticks w' = ticks w + 4" "executingJobs w' = executingJobs w"
      using r(9,7,10,6,8) by (simp_all add: w'_def)
    have c: "calls w' + 1 = calls w + 4" "calls w' + 2 = calls w + 5"
      "calls w' + 3 = calls w + 6" "calls w' + 4 = calls w + 7"
      by (simp_all add: w'f)
    have h: "executingJobs w' (job_id job) = None"
      "status finished = ACTIVE"
      "faults w' (calls w') = None" "faults w' (calls w' + 1) = Some m"
      "faults w' (calls w' + 2) = None" "faults w' (calls w' + 3) = None"
      "faults w' (calls w' + 4) = None"
      using f assms(1,3) unfolding c by (simp_all add: w'f(1,2,5) finished_def)
    let ?failed = "finished\<lparr>failureCount := failureCount finished + 1, lastError := Some m,
        nextRunAt := Some (Time (clock w' (ticks w' + 2) +
                                 backoffDelay (failureCount finished + 1)))\<rparr>"
    have "store (snd (executeJob job w')) = upsert ?failed (store w')"
      by (rule executeJob_failure(2)[OF h(1) fnd h(2-7)])
    moreover have "job_id ?failed = job_id job" using id by simp
    ultimately have "find (\<lambda>j. job_id j = job_id job) (store (snd (executeJob job w'))) =
        Some ?failed"
      using find_upsert[of ?failed "store w'"] by simp
    moreover have "ticks w' + 2 = ticks w + 6"
      by (simp add: w'f)
    then have "clock w' (ticks w' + 2) = clock w (ticks w + 6)"
      by (simp only: w'f)
    ultimately show ?thesis
      by (simp only: same(1))
  qed
  from r(1) st fnd wr same later show ?thesis by blast
qed

theorem success_leaves_failureCount_witness:
  "executingJobs (example_world [example_job] (\<lambda>n. if n = 4 then Some ''boom'' else None))
     (job_id example_job) = None \<and>
   calculateNextRun (fixed_zone 0) (schedule example_job) 5020 = Inr (Time 305020) \<and>
   find (\<lambda>j. job_id j = job_id example_job)
     (store (snd (executeJob example_job
        (example_world [example_job] (\<lambda>n. if n = 4 then Some ''boom'' else None))))) =
     Some (example_job\<lparr>lastRunAt := Some (Time 5010), runCount := 1,
                       nextRunAt := Some (Time 305020), lastError := None\<rparr>) \<and>
   find (\<lambda>j. job_id j = job_id example_job)
     (store (snd (executeJob example_job (snd (executeJob example_job
        (example_world [example_job] (\<lambda>n. if n = 4 then Some ''boom'' else None))))))) =
     Some (example_job\<lparr>lastRunAt := Some (Time 5010), runCount := 1, failureCount := 3,
                       lastError := Some ''boom'',
                       nextRunAt := Some (Time (5060 + 8 * 60000))\<rparr>)"
proof -
  let ?w = "example_world [example_job] (\<lambda>n. if n = 4 then Some ''boom'' else None)"
  have calc: "calculateNextRun (timeZone ?w) (schedule example_job) (clock ?w (ticks ?w + 2)) =
      Inr (Time 305020)"
    by (simp add: example_world_def example_job_def example_PT5M maxTime_def)
  have h: "executingJobs ?w (job_id example_job) = None"
    "find (\<lambda>j. job_id j = job_id example_job) (store ?w) = Some example_job"
    "status example_job = ACTIVE"
    "faults ?w (calls ?w) = None" "faults ?w (calls ?w + 1) = None"
    "faults ?w (calls ?w + 2) = None"
    by (simp_all add: example_world_def example_job_def)
  have f: "faults ?w (calls ?w + 3) = None \<and> faults ?w (calls ?w + 4) = Some ''boom'' \<and>
          faults ?w (calls ?w + 5) = None \<and> faults ?w (calls ?w + 6) = None \<and>
          faults ?w (calls ?w + 7) = None"
    by (simp add: example_world_def)
  have v: "clock ?w (ticks ?w + 1) = 5010" "clock ?w (ticks ?w + 6) = 5060"
    "failureCount example_job = 2" "runCount example_job + 1 = 1"
    "clock ?w (ticks ?w + 2) = 5020"
    by (simp_all add: example_world_def example_job_def)
  note t = success_leaves_failureCount[OF h calc, of "''boom''"]
  note t3 = t[THEN conjunct2, THEN conjunct2, THEN conjunct1]
  note t7 = t[THEN conjunct2, THEN conjunct2, THEN conjunct2, THEN conjunct2, THEN conjunct2,
              THEN conjunct2, THEN mp, OF f]
  from t3 t7 calc h(1) show ?thesis
    by (simp add: example_world_def example_job_def backoffDelay_def)
qed

end
